theory Spec2Isabelle
  imports Complex_Main "HOL-Library.Multiset"
begin

section \<open>Tensors and framework primitives\<close>

text \<open>
  The notebook \<open>sgp_dl_tutorial.ipynb\<close> defines two classes, \<open>PointNetLayer\<close> and
  \<open>PointNet\<close>, on top of PyTorch and PyTorch Geometric. The operations that only move
  or compare entries are stated for any type of entries. The forward pass is given twice:
  first in exact arithmetic, on tensors of reals (\<open>PointNetLayer_forward\<close>,
  \<open>PointNet_forward\<close>), then for any type of entries and over the kernel that evaluates a
  \<open>Linear\<close> layer (\<open>PointNetLayer_forward_k\<close>, \<open>PointNet_forward_k\<close>), which at the type
  \<open>f32\<close> of single-precision numbers is the arithmetic of the machine.
  A two-dimensional tensor of shape \<open>[n, c]\<close> is its column count
  together with the list of its \<open>n\<close> rows; the column count is kept on its own because
  a tensor with no rows still has a width (\<open>[0, c]\<close>). An index tensor is a list of
  integers, and \<open>edge_index\<close> (shape \<open>[2, E]\<close>) is the list of its \<open>E\<close> columns
  \<open>(edge_index[0][e], edge_index[1][e])\<close>, that is (source \<open>j\<close>, target \<open>i\<close>) under the
  default flow \<open>source_to_target\<close>.
\<close>

type_synonym 'a vec = "'a list"

datatype 'a tensor = Tensor (ncols: nat) (rows: "'a vec list")

definition nrows :: "'a tensor \<Rightarrow> nat" where
  "nrows t = length (rows t)"

definition wf_tensor :: "'a tensor \<Rightarrow> bool" where
  "wf_tensor t \<longleftrightarrow> (\<forall>r \<in> set (rows t). length r = ncols t)"

datatype error = IndexError | ValueError | RuntimeError

definition bind_result :: "error + 'a \<Rightarrow> ('a \<Rightarrow> error + 'b) \<Rightarrow> error + 'b" where
  "bind_result m f = (case m of Inl e \<Rightarrow> Inl e | Inr x \<Rightarrow> f x)"

text \<open>
  \<open>src.index_select(0, index)\<close> as \<open>MessagePassing._lift\<close> calls it: an index outside
  \<open>[0, n)\<close> raises IndexError (negative indices are not wrapped).
\<close>

definition index_select :: "'a tensor \<Rightarrow> int list \<Rightarrow> error + 'a tensor" where
  "index_select src index =
     (if \<forall>k \<in> set index. 0 \<le> k \<and> k < int (nrows src)
      then Inr (Tensor (ncols src) (map (\<lambda>k. rows src ! nat k) index))
      else Inl IndexError)"

text \<open>
  Element-wise difference \<open>a - b\<close> with broadcasting: in each of the two dimensions
  the sizes must be equal, or one of them must be 1, in which case that row or entry is
  repeated; anything else raises RuntimeError. Inside \<open>propagate\<close> both operands are
  gathered from the same tensor with index lists of the same length, so their shapes are
  equal.
\<close>

definition vsub :: "('a::minus) vec \<Rightarrow> 'a vec \<Rightarrow> 'a vec" where
  "vsub a b = map2 (\<lambda>x y. x - y) a b"

definition broadcast_dim :: "nat \<Rightarrow> nat \<Rightarrow> nat option" where
  "broadcast_dim m n =
     (if m = n then Some m else if m = 1 then Some n else if n = 1 then Some m else None)"

definition expand :: "'a tensor \<Rightarrow> nat \<Rightarrow> nat \<Rightarrow> 'a vec list" where
  "expand t n c =
     map (\<lambda>r. if ncols t = c then r else replicate c (hd r))
       (if nrows t = n then rows t else replicate n (hd (rows t)))"

definition tensor_sub :: "('a::minus) tensor \<Rightarrow> 'a tensor \<Rightarrow> error + 'a tensor" where
  "tensor_sub a b =
     (case (broadcast_dim (nrows a) (nrows b), broadcast_dim (ncols a) (ncols b)) of
        (Some n, Some c) \<Rightarrow> Inr (Tensor c (map2 vsub (expand a n c) (expand b n c)))
      | _ \<Rightarrow> Inl RuntimeError)"

text \<open>\<open>torch.cat([a, b], dim=-1)\<close>: the rows are joined; the row counts must agree.\<close>

definition tensor_cat :: "'a tensor \<Rightarrow> 'a tensor \<Rightarrow> error + 'a tensor" where
  "tensor_cat a b =
     (if nrows a = nrows b
      then Inr (Tensor (ncols a + ncols b) (map2 (\<lambda>r s. r @ s) (rows a) (rows b)))
      else Inl RuntimeError)"

text \<open>The rectified linear unit, \<open>h.relu()\<close> and \<open>torch.nn.ReLU\<close>.\<close>

definition relu_row :: "('a::{zero,linorder}) vec \<Rightarrow> 'a vec" where
  "relu_row r = map (\<lambda>x. max 0 x) r"

definition relu :: "('a::{zero,linorder}) tensor \<Rightarrow> 'a tensor" where
  "relu t = Tensor (ncols t) (map relu_row (rows t))"

subsection \<open>torch.nn.Linear\<close>

record 'a Linear =
  in_features :: nat
  out_features :: nat
  weight :: "'a vec list"
  bias :: "'a vec"

definition wf_Linear :: "'a Linear \<Rightarrow> bool" where
  "wf_Linear l \<longleftrightarrow>
     length (weight l) = out_features l \<and>
     (\<forall>w \<in> set (weight l). length w = in_features l) \<and>
     length (bias l) = out_features l"

text \<open>
  \<open>Linear(in_features, out_features)\<close> allocates a weight of shape
  \<open>[out_features, in_features]\<close> and a bias of shape \<open>[out_features]\<close>; the allocation
  raises RuntimeError on a negative dimension and accepts zero. The random initial
  values are a parameter: \<open>w r c\<close> is the weight entry in row \<open>r\<close>, column \<open>c\<close>, and
  \<open>b r\<close> the bias entry \<open>r\<close>.
\<close>

type_synonym 'a initializer = "(nat \<Rightarrow> nat \<Rightarrow> 'a) \<times> (nat \<Rightarrow> 'a)"

definition Linear_init :: "int \<Rightarrow> int \<Rightarrow> 'a initializer \<Rightarrow> error + 'a Linear" where
  "Linear_init n_in n_out ini =
     (if n_in < 0 \<or> n_out < 0 then Inl RuntimeError
      else Inr \<lparr> in_features = nat n_in, out_features = nat n_out,
                 weight = map (\<lambda>r. map (\<lambda>c. fst ini r c) [0..<nat n_in]) [0..<nat n_out],
                 bias = map (\<lambda>r. snd ini r) [0..<nat n_out] \<rparr>)"

text \<open>
  \<open>Linear\<close> in exact arithmetic, on reals. What the machine computes is stated further
  down, over the kernel that evaluates the layer.
\<close>

definition dot :: "real vec \<Rightarrow> real vec \<Rightarrow> real" where
  "dot a b = sum_list (map2 (\<lambda>x y. x * y) a b)"

definition Linear_row :: "real Linear \<Rightarrow> real vec \<Rightarrow> real vec" where
  "Linear_row l x = map2 (\<lambda>w b. dot w x + b) (weight l) (bias l)"

text \<open>\<open>x @ weight.T + bias\<close>; the last dimension of \<open>x\<close> must be \<open>in_features\<close>.\<close>

definition Linear_forward :: "real Linear \<Rightarrow> real tensor \<Rightarrow> error + real tensor" where
  "Linear_forward l x =
     (if ncols x \<noteq> in_features l then Inl RuntimeError
      else Inr (Tensor (out_features l) (map (Linear_row l) (rows x))))"

subsection \<open>torch.nn.Sequential\<close>

datatype 'a module = Linear_module "'a Linear" | ReLU_module

fun module_forward :: "real module \<Rightarrow> real tensor \<Rightarrow> error + real tensor" where
  "module_forward (Linear_module l) x = Linear_forward l x"
| "module_forward ReLU_module x = Inr (relu x)"

fun Sequential_forward :: "real module list \<Rightarrow> real tensor \<Rightarrow> error + real tensor" where
  "Sequential_forward [] x = Inr x"
| "Sequential_forward (m # ms) x = bind_result (module_forward m x) (Sequential_forward ms)"

subsection \<open>Maximum aggregation\<close>

text \<open>
  \<open>scatter(src, index, dim=0, dim_size, reduce='max')\<close>: row \<open>i\<close> of the result is the
  element-wise maximum of the rows \<open>src[e]\<close> with \<open>index[e] = i\<close>; a row that receives
  nothing keeps the zeros the result is allocated with
  (\<open>src.new_zeros(size).scatter_reduce_(..., reduce='amax', include_self=False)\<close>).
  The index is first broadcast against \<open>src\<close>: an index with a single entry stands for
  that entry on every row; any other length must be the number of rows. An index outside
  \<open>[0, dim_size)\<close> raises RuntimeError.
\<close>

definition vmax :: "('a::linorder) vec \<Rightarrow> 'a vec \<Rightarrow> 'a vec" where
  "vmax a b = map2 max a b"

definition amax :: "nat \<Rightarrow> ('a::{zero,linorder}) vec list \<Rightarrow> 'a vec" where
  "amax c rs = (case rs of [] \<Rightarrow> replicate c 0 | r # rs' \<Rightarrow> fold vmax rs' r)"

definition rows_at :: "int list \<Rightarrow> 'a vec list \<Rightarrow> nat \<Rightarrow> 'a vec list" where
  "rows_at index src i = map snd (filter (\<lambda>(k, r). k = int i) (zip index src))"

definition broadcast_index :: "int list \<Rightarrow> nat \<Rightarrow> int list" where
  "broadcast_index index n = (if length index = 1 then replicate n (hd index) else index)"

definition scatter_max :: "('a::{zero,linorder}) tensor \<Rightarrow> int list \<Rightarrow> nat \<Rightarrow> error + 'a tensor" where
  "scatter_max src index dim_size =
     (let idx = broadcast_index index (nrows src)
      in if length idx \<noteq> nrows src \<or> (\<exists>k \<in> set idx. k < 0 \<or> int dim_size \<le> k)
         then Inl RuntimeError
         else Inr (Tensor (ncols src)
                     (map (\<lambda>i. amax (ncols src) (rows_at idx (rows src) i)) [0..<dim_size])))"

text \<open>
  \<open>global_max_pool(x, batch)\<close>. Without a batch vector (a single \<open>Data\<close> object, as in
  the notebook's last cell) it is \<open>x.max(dim=-2, keepdim=True)\<close>, which raises on a
  tensor with no rows. With one it is \<open>scatter(x, batch, dim=-2, reduce='max')\<close> with
  \<open>dim_size = batch.max() + 1\<close> (0 for an empty batch vector).
\<close>

definition global_max_pool :: "('a::{zero,linorder}) tensor \<Rightarrow> int list option \<Rightarrow> error + 'a tensor" where
  "global_max_pool x batch =
     (case batch of
        None \<Rightarrow> (if rows x = [] then Inl IndexError
                 else Inr (Tensor (ncols x) [amax (ncols x) (rows x)]))
      | Some ids \<Rightarrow>
          scatter_max x ids (case ids of [] \<Rightarrow> 0 | k # ks \<Rightarrow> nat (fold max ks k + 1)))"

section \<open>PointNetLayer\<close>

text \<open>
  \<open>PointNetLayer(MessagePassing)\<close>: the constructor fixes \<open>aggr='max'\<close> and builds
  \<open>self.mlp = Sequential(Linear(in_channels + 3, out_channels), ReLU(),
  Linear(out_channels, out_channels))\<close>. The \<open>training\<close> flag is the one every
  \<open>torch.nn.Module\<close> carries; \<open>train()\<close> and \<open>eval()\<close> set it.
\<close>

record 'a PointNetLayer =
  mlp :: "'a module list"
  layer_training :: bool

definition PointNetLayer_init ::
  "int \<Rightarrow> int \<Rightarrow> 'a initializer \<Rightarrow> 'a initializer \<Rightarrow> error + 'a PointNetLayer" where
  "PointNetLayer_init in_channels out_channels ini1 ini2 =
     bind_result (Linear_init (in_channels + 3) out_channels ini1) (\<lambda>l1.
     bind_result (Linear_init out_channels out_channels ini2) (\<lambda>l2.
     Inr \<lparr> mlp = [Linear_module l1, ReLU_module, Linear_module l2],
           layer_training = True \<rparr>))"

text \<open>
  \<open>message(h_i, h_j, pos_j, pos_i)\<close>:
  \<open>edge_feat = torch.cat([h_j, pos_j - pos_i], dim=-1); return self.mlp(edge_feat)\<close>.
  Each argument has one row per edge.
\<close>

definition message ::
  "real PointNetLayer \<Rightarrow> real tensor \<Rightarrow> real tensor \<Rightarrow> real tensor \<Rightarrow> real tensor
   \<Rightarrow> error + real tensor" where
  "message L h_i h_j pos_j pos_i =
     bind_result (tensor_sub pos_j pos_i) (\<lambda>d.
     bind_result (tensor_cat h_j d) (\<lambda>edge_feat.
     Sequential_forward (mlp L) edge_feat))"

text \<open>
  \<open>self.propagate(edge_index, h=h, pos=pos)\<close> of the base class \<open>MessagePassing\<close>:
  \<open>collect\<close> gathers the arguments of \<open>message\<close> in the order of its signature (\<open>_i\<close>
  from the targets \<open>edge_index[1]\<close>, \<open>_j\<close> from the sources \<open>edge_index[0]\<close>), checking
  that \<open>h\<close> and \<open>pos\<close> have the same number of rows (ValueError otherwise); then
  \<open>message\<close> is called, and \<open>aggregate\<close> reduces the messages by target with the
  maximum into a tensor of as many rows as \<open>h\<close>.
\<close>

definition collect ::
  "(int \<times> int) list \<Rightarrow> 'a tensor \<Rightarrow> 'a tensor
   \<Rightarrow> error + ('a tensor \<times> 'a tensor \<times> 'a tensor \<times> 'a tensor)" where
  "collect edge_index h pos =
     bind_result (index_select h (map snd edge_index)) (\<lambda>h_i.
     bind_result (index_select h (map fst edge_index)) (\<lambda>h_j.
     if nrows pos \<noteq> nrows h then Inl ValueError else
     bind_result (index_select pos (map fst edge_index)) (\<lambda>pos_j.
     bind_result (index_select pos (map snd edge_index)) (\<lambda>pos_i.
     Inr (h_i, h_j, pos_j, pos_i)))))"

text \<open>
  The aggregation module \<open>MaxAggregation\<close> calls the scatter above. When the scatter fails
  and some index is not below \<open>dim_size\<close>, it raises ValueError (invalid \<open>dim_size\<close>) in
  place of the error of the scatter; any other error of the scatter is passed on.
\<close>

definition aggregate :: "('a::{zero,linorder}) tensor \<Rightarrow> int list \<Rightarrow> nat \<Rightarrow> error + 'a tensor" where
  "aggregate inputs index dim_size =
     (case scatter_max inputs index dim_size of
        Inl e \<Rightarrow> (if list_ex (\<lambda>k. int dim_size \<le> k) index then Inl ValueError else Inl e)
      | Inr out \<Rightarrow> Inr out)"

definition propagate ::
  "real PointNetLayer \<Rightarrow> (int \<times> int) list \<Rightarrow> real tensor \<Rightarrow> real tensor
   \<Rightarrow> error + real tensor" where
  "propagate L edge_index h pos =
     bind_result (collect edge_index h pos) (\<lambda>(h_i, h_j, pos_j, pos_i).
     bind_result (message L h_i h_j pos_j pos_i) (\<lambda>msgs.
     aggregate msgs (map snd edge_index) (nrows h)))"

definition PointNetLayer_forward ::
  "real PointNetLayer \<Rightarrow> real tensor \<Rightarrow> real tensor \<Rightarrow> (int \<times> int) list
   \<Rightarrow> error + real tensor" where
  "PointNetLayer_forward L h pos edge_index = propagate L edge_index h pos"

section \<open>PointNet\<close>

text \<open>
  \<open>PointNet.__init__\<close> takes no argument: it builds \<open>PointNetLayer(3, 32)\<close>,
  \<open>PointNetLayer(32, 32)\<close> and \<open>Linear(32, dataset.num_classes)\<close>. The global
  \<open>dataset.num_classes\<close> is the parameter \<open>num_classes\<close> here.
\<close>

record 'a PointNet =
  conv1 :: "'a PointNetLayer"
  conv2 :: "'a PointNetLayer"
  classifier :: "'a Linear"
  training :: bool

definition PointNet_init ::
  "int \<Rightarrow> 'a initializer \<Rightarrow> 'a initializer \<Rightarrow> 'a initializer \<Rightarrow> 'a initializer
   \<Rightarrow> 'a initializer \<Rightarrow> error + 'a PointNet" where
  "PointNet_init num_classes ini1 ini2 ini3 ini4 ini5 =
     bind_result (PointNetLayer_init 3 32 ini1 ini2) (\<lambda>c1.
     bind_result (PointNetLayer_init 32 32 ini3 ini4) (\<lambda>c2.
     bind_result (Linear_init 32 num_classes ini5) (\<lambda>cl.
     Inr \<lparr> conv1 = c1, conv2 = c2, classifier = cl, training = True \<rparr>)))"

text \<open>
  The part of \<open>PointNet.forward\<close> up to and including \<open>global_max_pool\<close>: the value of
  \<open>h\<close> that is passed to the classifier.
\<close>

definition PointNet_pooled ::
  "real PointNet \<Rightarrow> real tensor \<Rightarrow> (int \<times> int) list \<Rightarrow> int list option
   \<Rightarrow> error + real tensor" where
  "PointNet_pooled M pos edge_index batch =
     bind_result (PointNetLayer_forward (conv1 M) pos pos edge_index) (\<lambda>h1.
     bind_result (PointNetLayer_forward (conv2 M) (relu h1) pos edge_index) (\<lambda>h2.
     global_max_pool (relu h2) batch))"

definition PointNet_forward ::
  "real PointNet \<Rightarrow> real tensor \<Rightarrow> (int \<times> int) list \<Rightarrow> int list option
   \<Rightarrow> error + real tensor" where
  "PointNet_forward M pos edge_index batch =
     bind_result (PointNet_pooled M pos edge_index batch) (Linear_forward (classifier M))"

section \<open>Single-precision arithmetic\<close>

text \<open>
  The tensors of the notebook hold IEEE 754 binary32 numbers (\<open>torch.float32\<close>). A value
  is a finite real, an infinity or NaN; the two zeros are not told apart and neither are
  the payloads of NaN. \<open>round32\<close> rounds a real to the nearest binary32 number, ties to
  even: the spacing in the binade \<open>[2^e, 2^(e+1))\<close> is \<open>2^(e-23)\<close>, where \<open>exponent32\<close>
  keeps \<open>e\<close> between \<open>-126\<close> and \<open>127\<close>: below \<open>2^-126\<close> the spacing stays
  \<open>2^-149\<close> (gradual underflow), and a result that rounds to magnitude \<open>2^128\<close> is an
  infinity. Addition and multiplication round the exact result; \<open>inf - inf\<close> and
  \<open>0 * inf\<close> are NaN, and NaN propagates.
\<close>

datatype f32 = Fin real | PInf | NInf | NaN

definition pow2 :: "int \<Rightarrow> real" where
  "pow2 e = (if 0 \<le> e then 2 ^ nat e else 1 / 2 ^ nat (- e))"

definition rne :: "real \<Rightarrow> int" where
  "rne q =
     (let f = \<lfloor>q\<rfloor>; d = q - of_int f
      in if d < 1 / 2 then f else if 1 / 2 < d then f + 1 else if even f then f else f + 1)"

definition exponent32 :: "real \<Rightarrow> int" where
  "exponent32 r =
     (case filter (\<lambda>e. pow2 e \<le> \<bar>r\<bar>) (rev [- 126..127]) of [] \<Rightarrow> - 126 | e # es \<Rightarrow> e)"

definition round_to_grid :: "real \<Rightarrow> real" where
  "round_to_grid r =
     (if r = 0 then 0
      else of_int (rne (r / pow2 (exponent32 r - 23))) * pow2 (exponent32 r - 23))"

definition round32 :: "real \<Rightarrow> f32" where
  "round32 r =
     (let m = round_to_grid r
      in if 2 ^ 128 \<le> \<bar>m\<bar> then (if 0 < r then PInf else NInf) else Fin m)"

fun fneg :: "f32 \<Rightarrow> f32" where
  "fneg (Fin a) = Fin (- a)"
| "fneg PInf = NInf"
| "fneg NInf = PInf"
| "fneg NaN = NaN"

fun fadd :: "f32 \<Rightarrow> f32 \<Rightarrow> f32" where
  "fadd NaN b = NaN"
| "fadd a NaN = NaN"
| "fadd PInf NInf = NaN"
| "fadd NInf PInf = NaN"
| "fadd PInf b = PInf"
| "fadd a PInf = PInf"
| "fadd NInf b = NInf"
| "fadd a NInf = NInf"
| "fadd (Fin a) (Fin b) = round32 (a + b)"

fun fmul :: "f32 \<Rightarrow> f32 \<Rightarrow> f32" where
  "fmul NaN b = NaN"
| "fmul a NaN = NaN"
| "fmul (Fin a) (Fin b) = round32 (a * b)"
| "fmul (Fin a) PInf = (if a = 0 then NaN else if 0 < a then PInf else NInf)"
| "fmul (Fin a) NInf = (if a = 0 then NaN else if 0 < a then NInf else PInf)"
| "fmul PInf (Fin b) = (if b = 0 then NaN else if 0 < b then PInf else NInf)"
| "fmul NInf (Fin b) = (if b = 0 then NaN else if 0 < b then NInf else PInf)"
| "fmul PInf PInf = PInf"
| "fmul NInf NInf = PInf"
| "fmul PInf NInf = NInf"
| "fmul NInf PInf = NInf"

text \<open>
  \<open>f32_ge\<close> is the comparison \<open>>=\<close> of the machine, false as soon as NaN takes part.
  \<open>f32_le\<close> is the total order in which NaN lies above every other value: its maximum
  is the maximum that \<open>relu\<close>, \<open>scatter_reduce_\<close> with \<open>amax\<close> and \<open>Tensor.max\<close>
  compute, which is NaN as soon as one argument is NaN. This order is the order of the
  type \<open>f32\<close>; \<open>+\<close>, \<open>-\<close> and \<open>*\<close> are the rounded operations.
\<close>

fun f32_le :: "f32 \<Rightarrow> f32 \<Rightarrow> bool" where
  "f32_le a NaN = True"
| "f32_le NaN b = False"
| "f32_le NInf b = True"
| "f32_le a NInf = False"
| "f32_le a PInf = True"
| "f32_le PInf b = False"
| "f32_le (Fin a) (Fin b) = (a \<le> b)"

fun f32_ge :: "f32 \<Rightarrow> f32 \<Rightarrow> bool" where
  "f32_ge NaN b = False"
| "f32_ge a NaN = False"
| "f32_ge PInf b = True"
| "f32_ge a NInf = True"
| "f32_ge a PInf = False"
| "f32_ge NInf b = False"
| "f32_ge (Fin a) (Fin b) = (b \<le> a)"

instantiation f32 :: "{zero, plus, minus, times, linorder}"
begin

definition zero_f32 :: f32 where
  "zero_f32 = Fin 0"

definition plus_f32 :: "f32 \<Rightarrow> f32 \<Rightarrow> f32" where
  "plus_f32 a b = fadd a b"

definition minus_f32 :: "f32 \<Rightarrow> f32 \<Rightarrow> f32" where
  "minus_f32 a b = fadd a (fneg b)"

definition times_f32 :: "f32 \<Rightarrow> f32 \<Rightarrow> f32" where
  "times_f32 a b = fmul a b"

definition less_eq_f32 :: "f32 \<Rightarrow> f32 \<Rightarrow> bool" where
  "less_eq_f32 a b = f32_le a b"

definition less_f32 :: "f32 \<Rightarrow> f32 \<Rightarrow> bool" where
  "less_f32 a b = (f32_le a b \<and> \<not> f32_le b a)"

instance
proof
  fix x y z :: f32
  show "(x < y) = (x \<le> y \<and> \<not> y \<le> x)"
    by (simp add: less_f32_def less_eq_f32_def)
  show "x \<le> x"
    by (cases x) (simp_all add: less_eq_f32_def)
  show "x \<le> y \<Longrightarrow> y \<le> z \<Longrightarrow> x \<le> z"
    by (cases x; cases y; cases z) (simp_all add: less_eq_f32_def)
  show "x \<le> y \<Longrightarrow> y \<le> x \<Longrightarrow> x = y"
    by (cases x; cases y) (simp_all add: less_eq_f32_def)
  show "x \<le> y \<or> y \<le> x"
    by (cases x; cases y) (auto simp: less_eq_f32_def)
qed

end

section \<open>The forward pass over a Linear kernel\<close>

text \<open>
  \<open>Linear\<close> hands \<open>x @ weight.T + bias\<close> to a matrix routine of the linear-algebra
  library. In exact arithmetic an entry of the result is \<open>dot w x + b\<close>. In floating point
  it depends on the order in which the routine adds the products, and the routine is
  chosen by the shape of the input (a matrix-vector routine for an input of one row,
  blocked matrix-matrix routines otherwise). The routine is therefore a parameter \<open>K\<close>:
  \<open>K n w b x\<close> is the entry computed from the weight row \<open>w\<close>, the bias entry \<open>b\<close> and
  the input row \<open>x\<close> when the input has \<open>n\<close> rows, wherever the row stands in the input.
  (PyTorch's notes on numerical accuracy say as much: the result of a batched computation
  need not be bitwise identical to the results of its slices computed one by one.)
  Everything else is as in the two sections above, for any type of entries.
\<close>

type_synonym 'a kernel = "nat \<Rightarrow> 'a vec \<Rightarrow> 'a \<Rightarrow> 'a vec \<Rightarrow> 'a"

definition Linear_row_k :: "'a kernel \<Rightarrow> nat \<Rightarrow> 'a Linear \<Rightarrow> 'a vec \<Rightarrow> 'a vec" where
  "Linear_row_k K n l x = map2 (\<lambda>w b. K n w b x) (weight l) (bias l)"

definition Linear_forward_k :: "'a kernel \<Rightarrow> 'a Linear \<Rightarrow> 'a tensor \<Rightarrow> error + 'a tensor" where
  "Linear_forward_k K l x =
     (if ncols x \<noteq> in_features l then Inl RuntimeError
      else Inr (Tensor (out_features l) (map (Linear_row_k K (nrows x) l) (rows x))))"

fun module_forward_k ::
  "('a::{zero,linorder}) kernel \<Rightarrow> 'a module \<Rightarrow> 'a tensor \<Rightarrow> error + 'a tensor" where
  "module_forward_k K (Linear_module l) x = Linear_forward_k K l x"
| "module_forward_k K ReLU_module x = Inr (relu x)"

fun Sequential_forward_k ::
  "('a::{zero,linorder}) kernel \<Rightarrow> 'a module list \<Rightarrow> 'a tensor \<Rightarrow> error + 'a tensor" where
  "Sequential_forward_k K [] x = Inr x"
| "Sequential_forward_k K (m # ms) x =
     bind_result (module_forward_k K m x) (Sequential_forward_k K ms)"

definition message_k ::
  "('a::{zero,minus,linorder}) kernel \<Rightarrow> 'a PointNetLayer \<Rightarrow> 'a tensor \<Rightarrow> 'a tensor
   \<Rightarrow> 'a tensor \<Rightarrow> 'a tensor \<Rightarrow> error + 'a tensor" where
  "message_k K L h_i h_j pos_j pos_i =
     bind_result (tensor_sub pos_j pos_i) (\<lambda>d.
     bind_result (tensor_cat h_j d) (\<lambda>edge_feat.
     Sequential_forward_k K (mlp L) edge_feat))"

definition propagate_k ::
  "('a::{zero,minus,linorder}) kernel \<Rightarrow> 'a PointNetLayer \<Rightarrow> (int \<times> int) list
   \<Rightarrow> 'a tensor \<Rightarrow> 'a tensor \<Rightarrow> error + 'a tensor" where
  "propagate_k K L edge_index h pos =
     bind_result (collect edge_index h pos) (\<lambda>(h_i, h_j, pos_j, pos_i).
     bind_result (message_k K L h_i h_j pos_j pos_i) (\<lambda>msgs.
     aggregate msgs (map snd edge_index) (nrows h)))"

definition PointNetLayer_forward_k ::
  "('a::{zero,minus,linorder}) kernel \<Rightarrow> 'a PointNetLayer \<Rightarrow> 'a tensor \<Rightarrow> 'a tensor
   \<Rightarrow> (int \<times> int) list \<Rightarrow> error + 'a tensor" where
  "PointNetLayer_forward_k K L h pos edge_index = propagate_k K L edge_index h pos"

definition PointNet_pooled_k ::
  "('a::{zero,minus,linorder}) kernel \<Rightarrow> 'a PointNet \<Rightarrow> 'a tensor \<Rightarrow> (int \<times> int) list
   \<Rightarrow> int list option \<Rightarrow> error + 'a tensor" where
  "PointNet_pooled_k K M pos edge_index batch =
     bind_result (PointNetLayer_forward_k K (conv1 M) pos pos edge_index) (\<lambda>h1.
     bind_result (PointNetLayer_forward_k K (conv2 M) (relu h1) pos edge_index) (\<lambda>h2.
     global_max_pool (relu h2) batch))"

definition PointNet_forward_k ::
  "('a::{zero,minus,linorder}) kernel \<Rightarrow> 'a PointNet \<Rightarrow> 'a tensor \<Rightarrow> (int \<times> int) list
   \<Rightarrow> int list option \<Rightarrow> error + 'a tensor" where
  "PointNet_forward_k K M pos edge_index batch =
     bind_result (PointNet_pooled_k K M pos edge_index batch)
       (Linear_forward_k K (classifier M))"

text \<open>
  Kernels: the one of exact arithmetic; the one that adds the rounded products from the
  left and the one that adds them from the right, each followed by the bias; and a
  library that uses the first on an input of one row and the second on any other input.
\<close>

definition exact_kernel :: "real kernel" where
  "exact_kernel n w b x = dot w x + b"

definition kernel_l2r :: "('a::{zero,plus,times}) vec \<Rightarrow> 'a \<Rightarrow> 'a vec \<Rightarrow> 'a" where
  "kernel_l2r w b x = foldl (\<lambda>s (wk, xk). s + wk * xk) 0 (zip w x) + b"



section \<open>Auxiliary notions\<close>

subsection \<open>A layer, one row at a time\<close>

text \<open>
  What a \<open>Sequential\<close> does to one row (\<open>seq_row\<close>) and to the column count
  (\<open>seq_cols\<close>); the edge lists with all indices in \<open>[0, n)\<close>; the edge feature and
  the message of one edge \<open>(j, i)\<close>; and the edges that arrive at a target \<open>i\<close>.
\<close>

fun seq_row :: "real module list \<Rightarrow> real vec \<Rightarrow> real vec" where
  "seq_row [] r = r"
| "seq_row (Linear_module l # ms) r = seq_row ms (Linear_row l r)"
| "seq_row (ReLU_module # ms) r = seq_row ms (relu_row r)"

fun seq_cols :: "'a module list \<Rightarrow> nat \<Rightarrow> error + nat" where
  "seq_cols [] c = Inr c"
| "seq_cols (Linear_module l # ms) c =
     (if c \<noteq> in_features l then Inl RuntimeError else seq_cols ms (out_features l))"
| "seq_cols (ReLU_module # ms) c = seq_cols ms c"

definition valid_edges :: "nat \<Rightarrow> (int \<times> int) list \<Rightarrow> bool" where
  "valid_edges n es \<longleftrightarrow> (\<forall>(j, i) \<in> set es. 0 \<le> j \<and> j < int n \<and> 0 \<le> i \<and> i < int n)"

definition edge_feat_row :: "('a::minus) tensor \<Rightarrow> 'a tensor \<Rightarrow> int \<times> int \<Rightarrow> 'a vec" where
  "edge_feat_row h pos e =
     rows h ! nat (fst e) @ vsub (rows pos ! nat (fst e)) (rows pos ! nat (snd e))"

definition edge_message :: "real PointNetLayer \<Rightarrow> real tensor \<Rightarrow> real tensor \<Rightarrow> int \<times> int \<Rightarrow> real vec" where
  "edge_message L h pos e = seq_row (mlp L) (edge_feat_row h pos e)"

definition incoming :: "(int \<times> int) list \<Rightarrow> nat \<Rightarrow> (int \<times> int) list" where
  "incoming es i = filter (\<lambda>e. snd e = int i) es"

text \<open>The same over a kernel, for a \<open>Sequential\<close> that is applied to \<open>n\<close> rows.\<close>

fun seq_row_k :: "('a::{zero,linorder}) kernel \<Rightarrow> nat \<Rightarrow> 'a module list \<Rightarrow> 'a vec \<Rightarrow> 'a vec" where
  "seq_row_k K n [] r = r"
| "seq_row_k K n (Linear_module l # ms) r = seq_row_k K n ms (Linear_row_k K n l r)"
| "seq_row_k K n (ReLU_module # ms) r = seq_row_k K n ms (relu_row r)"

definition edge_message_k ::
  "('a::{zero,minus,linorder}) kernel \<Rightarrow> nat \<Rightarrow> 'a PointNetLayer \<Rightarrow> 'a tensor \<Rightarrow> 'a tensor
   \<Rightarrow> int \<times> int \<Rightarrow> 'a vec" where
  "edge_message_k K n L h pos e = seq_row_k K n (mlp L) (edge_feat_row h pos e)"

text \<open>
  Single-precision values that are finite (\<open>is_fin\<close>), and finite values that rounding
  leaves as they are (\<open>fin_rep\<close>).
\<close>

definition is_fin :: "f32 \<Rightarrow> bool" where
  "is_fin v = (case v of Fin a \<Rightarrow> True | _ \<Rightarrow> False)"

definition fin_rep :: "f32 \<Rightarrow> bool" where
  "fin_rep v = (case v of Fin a \<Rightarrow> round32 a = Fin a | _ \<Rightarrow> False)"

subsection \<open>Shapes\<close>

text \<open>
  A layer has the shape of \<open>PointNetLayer(ic, oc)\<close> when its \<open>mlp\<close> is
  \<open>Linear(ic + 3, oc)\<close>, \<open>ReLU\<close>, \<open>Linear(oc, oc)\<close> with weights and biases of these
  shapes, whatever their values (the optimizer changes the values, not the shapes); a
  model has the shape of \<open>PointNet\<close> with \<open>nc\<close> classes accordingly.
  A batch vector fits a cloud of \<open>n\<close> points when it has one entry per point (or is
  absent); \<open>batch_dim_size\<close> is the number of rows \<open>global_max_pool\<close> gives its
  result.
\<close>

definition wf_PointNetLayer :: "'a PointNetLayer \<Rightarrow> nat \<Rightarrow> nat \<Rightarrow> bool" where
  "wf_PointNetLayer L ic oc \<longleftrightarrow>
     (case mlp L of
        [Linear_module l1, ReLU_module, Linear_module l2] \<Rightarrow>
          wf_Linear l1 \<and> wf_Linear l2 \<and> in_features l1 = ic + 3 \<and> out_features l1 = oc \<and>
          in_features l2 = oc \<and> out_features l2 = oc
      | _ \<Rightarrow> False)"

definition wf_PointNet :: "'a PointNet \<Rightarrow> nat \<Rightarrow> bool" where
  "wf_PointNet M nc \<longleftrightarrow>
     wf_PointNetLayer (conv1 M) 3 32 \<and> wf_PointNetLayer (conv2 M) 32 32 \<and>
     wf_Linear (classifier M) \<and> in_features (classifier M) = 32 \<and>
     out_features (classifier M) = nc"

definition nonneg_row :: "('a::{zero,linorder}) vec \<Rightarrow> bool" where
  "nonneg_row r \<longleftrightarrow> (\<forall>x \<in> set r. 0 \<le> x)"

definition batch_fits :: "int list option \<Rightarrow> nat \<Rightarrow> bool" where
  "batch_fits batch n \<longleftrightarrow> (case batch of None \<Rightarrow> True | Some ids \<Rightarrow> length ids = n)"

definition batch_dim_size :: "int list \<Rightarrow> nat" where
  "batch_dim_size ids = (case ids of [] \<Rightarrow> 0 | k # ks \<Rightarrow> nat (fold max ks k + 1))"

subsection \<open>Permuting the points\<close>

text \<open>
  A permutation is a list \<open>p\<close> of the indices \<open>0, ..., N - 1\<close>: position \<open>k\<close> of the
  permuted cloud holds the point \<open>p ! k\<close> of the original one. An edge endpoint \<open>v\<close> is
  relabelled to the position of \<open>v\<close> in \<open>p\<close>.
\<close>

fun index_in :: "nat list \<Rightarrow> nat \<Rightarrow> nat" where
  "index_in [] v = 0"
| "index_in (x # xs) v = (if x = v then 0 else Suc (index_in xs v))"

definition permute_rows :: "nat list \<Rightarrow> 'a list \<Rightarrow> 'a list" where
  "permute_rows p xs = map (\<lambda>k. xs ! k) p"

definition permute_points :: "nat list \<Rightarrow> 'a tensor \<Rightarrow> 'a tensor" where
  "permute_points p t = Tensor (ncols t) (permute_rows p (rows t))"

definition relabel :: "nat list \<Rightarrow> (int \<times> int) list \<Rightarrow> (int \<times> int) list" where
  "relabel p es = map (\<lambda>e. (int (index_in p (nat (fst e))), int (index_in p (nat (snd e))))) es"

subsection \<open>Batching two objects\<close>



section \<open>Example values\<close>

text \<open>
  Concrete inputs on which the theorems below are instantiated. The example layers have
  identity-like weights (\<open>1\<close> on the diagonal, \<open>0\<close> elsewhere) and zero biases.
\<close>

definition ex_ini :: "real initializer" where
  "ex_ini = (\<lambda>r c. if r = c then 1 else 0, \<lambda>r. 0)"

definition ex_linear :: "nat \<Rightarrow> nat \<Rightarrow> real Linear" where
  "ex_linear n m =
     \<lparr> in_features = n, out_features = m,
       weight = map (\<lambda>r. map (\<lambda>c. if r = c then 1 else 0) [0..<n]) [0..<m],
       bias = map (\<lambda>r. 0) [0..<m] \<rparr>"

definition ex_layer :: "real PointNetLayer" where
  "ex_layer = \<lparr> mlp = [Linear_module \<lparr> in_features = 4, out_features = 2,
                   weight = [[1, 0, 0, 0], [0, 1, 0, 0]], bias = [0, 0] \<rparr>, ReLU_module,
                 Linear_module \<lparr> in_features = 2, out_features = 2,
                   weight = [[1, 0], [0, 1]], bias = [0, 0] \<rparr>], layer_training = True \<rparr>"

definition ex_net :: "real PointNet" where
  "ex_net =
     \<lparr> conv1 = \<lparr> mlp = [Linear_module (ex_linear 6 32), ReLU_module,
                           Linear_module (ex_linear 32 32)], layer_training = True \<rparr>,
       conv2 = \<lparr> mlp = [Linear_module (ex_linear 35 32), ReLU_module,
                           Linear_module (ex_linear 32 32)], layer_training = True \<rparr>,
       classifier = ex_linear 32 2, training = True \<rparr>"

definition ex_h :: "real tensor" where
  "ex_h = Tensor 1 [[1], [2]]"

definition ex_pos :: "real tensor" where
  "ex_pos = Tensor 3 [[0, 0, 0], [1, 0, 0]]"

definition ex_edges :: "(int \<times> int) list" where
  "ex_edges = [(0, 1), (1, 0)]"

definition ex_h3 :: "real tensor" where
  "ex_h3 = Tensor 1 [[1], [2], [3]]"

definition ex_pos3 :: "real tensor" where
  "ex_pos3 = Tensor 3 [[0, 0, 0], [1, 0, 0], [0, 1, 0]]"

definition ex_edges3 :: "(int \<times> int) list" where
  "ex_edges3 = [(1, 0), (2, 0), (0, 1), (0, 2)]"

definition ex_perm3 :: "nat list" where
  "ex_perm3 = [2, 0, 1]"

definition ex_edges3' :: "(int \<times> int) list" where
  "ex_edges3' = [(1, 0), (1, 2), (0, 1), (2, 1)]"

definition ex_out3 :: "real tensor" where
  "ex_out3 = Tensor 2 [[3, 1], [1, 0], [1, 0]]"

definition ex_logits3 :: "real tensor" where
  "ex_logits3 = Tensor 2 [[1, 1]]"

definition ex_pos10 :: "real tensor" where
  "ex_pos10 = Tensor 3 [[0, 0, 0], [1, 0, 0], [0, 1, 0], [0, 0, 1], [1, 1, 0],
                        [1, 0, 1], [0, 1, 1], [1, 1, 1], [2, 0, 0], [0, 2, 0]]"

definition ex_edges10 :: "(int \<times> int) list" where
  "ex_edges10 = [(1, 0), (2, 0), (0, 1), (0, 2), (4, 3), (3, 4), (6, 5), (5, 6), (8, 7), (9, 7),
                 (7, 8), (7, 9)]"

definition ex_batch10 :: "int list" where
  "ex_batch10 = [0, 0, 0, 1, 1, 2, 2, 3, 3, 3]"

text \<open>
  Single-precision examples. \<open>ex32_linear\<close>, \<open>ex32_layer\<close> and \<open>ex32_net\<close> have the
  identity-like weights of the examples above. \<open>big_pos\<close> and \<open>big_pos3\<close> hold two
  points whose first coordinates are finite and whose difference is not (and, in
  \<open>big_pos3\<close>, the origin). \<open>tie_net\<close> is a model with
  constant layers (all weights \<open>0\<close>, all biases \<open>1\<close>) and a classifier whose first
  weight row is \<open>1, -2^-25, -2^-25, 0, ..., 0\<close>.
\<close>

definition ex32_linear :: "nat \<Rightarrow> nat \<Rightarrow> f32 Linear" where
  "ex32_linear n m =
     \<lparr> in_features = n, out_features = m,
       weight = map (\<lambda>r. map (\<lambda>c. if r = c then Fin 1 else Fin 0) [0..<n]) [0..<m],
       bias = map (\<lambda>r. Fin 0) [0..<m] \<rparr>"


definition ex32_net :: "f32 PointNet" where
  "ex32_net =
     \<lparr> conv1 = \<lparr> mlp = [Linear_module (ex32_linear 6 32), ReLU_module,
                           Linear_module (ex32_linear 32 32)], layer_training = True \<rparr>,
       conv2 = \<lparr> mlp = [Linear_module (ex32_linear 35 32), ReLU_module,
                           Linear_module (ex32_linear 32 32)], layer_training = True \<rparr>,
       classifier = ex32_linear 32 2, training = True \<rparr>"


definition ex32_pos :: "f32 tensor" where
  "ex32_pos = Tensor 3 [[Fin 1, Fin 0, Fin 0], [Fin 0, Fin 0, Fin 0]]"


definition big_pos :: "f32 tensor" where
  "big_pos = Tensor 3 [[Fin (2 ^ 127), Fin 0, Fin 0], [Fin (- (2 ^ 127)), Fin 0, Fin 0]]"


definition ex32_pooled :: "f32 tensor" where
  "ex32_pooled = Tensor 32 [[Fin 1, Fin 0, Fin 0, Fin 1, Fin 0, Fin 0, Fin 0, Fin 0,
     Fin 0, Fin 0, Fin 0, Fin 0, Fin 0, Fin 0, Fin 0, Fin 0, Fin 0, Fin 0, Fin 0, Fin 0,
     Fin 0, Fin 0, Fin 0, Fin 0, Fin 0, Fin 0, Fin 0, Fin 0, Fin 0, Fin 0, Fin 0, Fin 0]]"



definition nan_pooled :: "f32 tensor" where
  "nan_pooled = Tensor 32 [replicate 32 NaN]"





definition const_linear :: "nat \<Rightarrow> nat \<Rightarrow> f32 Linear" where
  "const_linear n m =
     \<lparr> in_features = n, out_features = m,
       weight = replicate m (replicate n (Fin 0)), bias = replicate m (Fin 1) \<rparr>"

definition tie_weights :: "f32 vec" where
  "tie_weights = [Fin 1, Fin (- (1 / 2 ^ 25)), Fin (- (1 / 2 ^ 25))] @ replicate 29 (Fin 0)"

definition tie_linear :: "f32 Linear" where
  "tie_linear =
     \<lparr> in_features = 32, out_features = 2,
       weight = [tie_weights, replicate 32 (Fin 0)], bias = [Fin 0, Fin 0] \<rparr>"

definition tie_net :: "f32 PointNet" where
  "tie_net =
     \<lparr> conv1 = \<lparr> mlp = [Linear_module (const_linear 6 32), ReLU_module,
                           Linear_module (const_linear 32 32)], layer_training = True \<rparr>,
       conv2 = \<lparr> mlp = [Linear_module (const_linear 35 32), ReLU_module,
                           Linear_module (const_linear 32 32)], layer_training = True \<rparr>,
       classifier = tie_linear, training = True \<rparr>"



section \<open>Basic facts\<close>

lemma bind_result_Inr [simp]: "bind_result (Inr x) f = f x"
  by (simp add: bind_result_def)

lemma bind_result_Inl [simp]: "bind_result (Inl e) f = Inl e"
  by (simp add: bind_result_def)

lemma broadcast_index_same [simp]: "length index = n \<Longrightarrow> broadcast_index index n = index"
  by (cases index) (auto simp: broadcast_index_def)

lemma tensor_sub_same:
  assumes "ncols a = ncols b" "length (rows a) = length (rows b)"
  shows "tensor_sub a b = Inr (Tensor (ncols a) (map2 vsub (rows a) (rows b)))"
  using assms by (simp add: tensor_sub_def broadcast_dim_def expand_def nrows_def)

lemma scatter_max_fits:
  assumes "length index = nrows src"
  shows "scatter_max src index d =
     (if \<exists>k \<in> set index. k < 0 \<or> int d \<le> k then Inl RuntimeError
      else Inr (Tensor (ncols src)
             (map (\<lambda>i. amax (ncols src) (rows_at index (rows src) i)) [0..<d])))"
  using assms by (simp add: scatter_max_def)

lemma bind_result_eq_Inr:
  "bind_result m f = Inr y \<longleftrightarrow> (\<exists>x. m = Inr x \<and> f x = Inr y)"
  by (cases m) simp_all

section \<open>The layer, row by row\<close>

lemma Sequential_forward_rows:
  "Sequential_forward ms x =
     bind_result (seq_cols ms (ncols x)) (\<lambda>c. Inr (Tensor c (map (seq_row ms) (rows x))))"
proof (induction ms arbitrary: x)
  case Nil
  show ?case by simp
next
  case (Cons m ms)
  show ?case
  proof (cases m)
    case (Linear_module l)
    then show ?thesis using Cons.IH by (simp add: Linear_forward_def comp_def)
  next
    case ReLU_module
    then show ?thesis using Cons.IH by (simp add: relu_def comp_def)
  qed
qed

lemma rows_at_map:
  "rows_at (map snd es) (map f es) i = map f (incoming es i)"
  by (induction es) (auto simp: rows_at_def incoming_def)

lemma collect_valid:
  assumes "valid_edges (nrows h) es" "nrows pos = nrows h"
  shows "collect es h pos =
     Inr (Tensor (ncols h) (map (\<lambda>e. rows h ! nat (snd e)) es),
          Tensor (ncols h) (map (\<lambda>e. rows h ! nat (fst e)) es),
          Tensor (ncols pos) (map (\<lambda>e. rows pos ! nat (fst e)) es),
          Tensor (ncols pos) (map (\<lambda>e. rows pos ! nat (snd e)) es))"
  using assms
  by (auto simp: collect_def index_select_def valid_edges_def comp_def)

lemma collect_invalid:
  assumes "\<not> valid_edges (nrows h) es"
  shows "collect es h pos = Inl IndexError"
  using assms
  by (fastforce simp: collect_def index_select_def valid_edges_def)

lemma collect_mismatch:
  assumes "valid_edges (nrows h) es" "nrows pos \<noteq> nrows h"
  shows "collect es h pos = Inl ValueError"
  using assms
  by (auto simp: collect_def index_select_def valid_edges_def)

lemma map2_same: "map2 f (map g xs) (map k xs) = map (\<lambda>x. f (g x) (k x)) xs"
  by (induction xs) simp_all

lemma message_rows:
  "message L (Tensor ch (map fi es)) (Tensor ch (map (\<lambda>e. rows h ! nat (fst e)) es))
     (Tensor cp (map (\<lambda>e. rows pos ! nat (fst e)) es))
     (Tensor cp (map (\<lambda>e. rows pos ! nat (snd e)) es)) =
   bind_result (seq_cols (mlp L) (ch + cp))
     (\<lambda>c. Inr (Tensor c (map (edge_message L h pos) es)))"
  by (simp add: message_def tensor_sub_same tensor_cat_def nrows_def Sequential_forward_rows
      edge_message_def [abs_def] edge_feat_row_def [abs_def] map2_same comp_def)

lemma forward_rows:
  "PointNetLayer_forward L h pos es =
     (if \<not> valid_edges (nrows h) es then Inl IndexError
      else if nrows pos \<noteq> nrows h then Inl ValueError
      else bind_result (seq_cols (mlp L) (ncols h + ncols pos)) (\<lambda>c.
             Inr (Tensor c (map (\<lambda>i. amax c (map (edge_message L h pos) (incoming es i)))
                    [0..<nrows h]))))"
proof -
  have sc: "scatter_max (Tensor c (map f es)) (map snd es) (nrows h) =
      Inr (Tensor c (map (\<lambda>i. amax c (map f (incoming es i))) [0..<nrows h]))"
    if "valid_edges (nrows h) es" for c f
    using that by (auto simp: scatter_max_def nrows_def rows_at_map valid_edges_def)
  show ?thesis
  proof (cases "valid_edges (nrows h) es")
    case False
    then show ?thesis
      by (simp add: PointNetLayer_forward_def propagate_def collect_invalid)
  next
    case v: True
    show ?thesis
    proof (cases "nrows pos = nrows h")
      case False
      with v show ?thesis
        by (simp add: PointNetLayer_forward_def propagate_def collect_mismatch)
    next
      case True
      with v show ?thesis
        by (cases "seq_cols (mlp L) (ncols h + ncols pos)")
           (simp_all add: PointNetLayer_forward_def propagate_def collect_valid message_rows
             aggregate_def sc)
    qed
  qed
qed

section \<open>Constructed layers\<close>

lemma Linear_init_Inr:
  "Linear_init a b ini = Inr l \<Longrightarrow>
     0 \<le> a \<and> 0 \<le> b \<and> in_features l = nat a \<and> out_features l = nat b \<and> wf_Linear l"
  by (auto simp: Linear_init_def wf_Linear_def split: if_splits)

lemma PointNetLayer_init_Inr:
  assumes "PointNetLayer_init ic oc ini1 ini2 = Inr L"
  shows "\<exists>l1 l2. Linear_init (ic + 3) oc ini1 = Inr l1 \<and> Linear_init oc oc ini2 = Inr l2 \<and>
           mlp L = [Linear_module l1, ReLU_module, Linear_module l2]"
  using assms by (auto simp: PointNetLayer_init_def bind_result_eq_Inr)

lemma collect_Inr:
  assumes "collect es h pos = Inr q"
  shows "valid_edges (nrows h) es \<and> nrows pos = nrows h"
proof -
  have "valid_edges (nrows h) es"
    using assms collect_invalid by fastforce
  moreover from this have "nrows pos = nrows h"
    using assms collect_mismatch by fastforce
  ultimately show ?thesis by simp
qed

lemma ex_layer_init: "PointNetLayer_init 1 2 ex_ini ex_ini = Inr ex_layer"
  by (simp add: PointNetLayer_init_def Linear_init_def ex_ini_def ex_layer_def upt_rec)

lemma wf_PointNetLayerD:
  assumes "wf_PointNetLayer L ic oc"
  shows "\<exists>l1 l2. mlp L = [Linear_module l1, ReLU_module, Linear_module l2] \<and>
    wf_Linear l1 \<and> wf_Linear l2 \<and> in_features l1 = ic + 3 \<and> out_features l1 = oc \<and>
    in_features l2 = oc \<and> out_features l2 = oc"
proof (cases "mlp L")
  case Nil
  with assms show ?thesis by (simp add: wf_PointNetLayer_def)
next
  case c1: (Cons m1 ms1)
  show ?thesis
  proof (cases ms1)
    case Nil
    with assms c1 show ?thesis by (simp add: wf_PointNetLayer_def split: module.splits)
  next
    case c2: (Cons m2 ms2)
    show ?thesis
    proof (cases ms2)
      case Nil
      with assms c1 c2 show ?thesis by (simp add: wf_PointNetLayer_def split: module.splits)
    next
      case c3: (Cons m3 ms3)
      with assms c1 c2 show ?thesis
        by (cases m1; cases m2; cases m3; cases ms3) (simp_all add: wf_PointNetLayer_def)
    qed
  qed
qed

lemma PointNetLayer_init_wf:
  assumes "PointNetLayer_init ic oc ini1 ini2 = Inr L" "0 \<le> ic"
  shows "wf_PointNetLayer L (nat ic) (nat oc)"
proof -
  from PointNetLayer_init_Inr [OF assms(1)] obtain l1 l2 where
    l1: "Linear_init (ic + 3) oc ini1 = Inr l1" and l2: "Linear_init oc oc ini2 = Inr l2" and
    m: "mlp L = [Linear_module l1, ReLU_module, Linear_module l2]" by blast
  from Linear_init_Inr [OF l1] Linear_init_Inr [OF l2] assms(2) m show ?thesis
    by (simp add: wf_PointNetLayer_def nat_add_distrib)
qed

lemma PointNet_init_wf:
  assumes "PointNet_init nc i1 i2 i3 i4 i5 = Inr M"
  shows "wf_PointNet M (nat nc)"
proof -
  from assms obtain c1 c2 cl where
    c1: "PointNetLayer_init 3 32 i1 i2 = Inr c1" and c2: "PointNetLayer_init 32 32 i3 i4 = Inr c2"
    and cl: "Linear_init 32 nc i5 = Inr cl"
    and M: "M = \<lparr> conv1 = c1, conv2 = c2, classifier = cl, training = True \<rparr>"
    by (auto simp: PointNet_init_def bind_result_eq_Inr)
  from PointNetLayer_init_wf [OF c1] PointNetLayer_init_wf [OF c2] Linear_init_Inr [OF cl] M
  show ?thesis by (simp add: wf_PointNet_def)
qed

lemma seq_cols_wf:
  assumes "wf_PointNetLayer L ic oc"
  shows "seq_cols (mlp L) (ic + 3) = Inr oc"
  using wf_PointNetLayerD [OF assms] by auto

lemma length_Linear_row: "wf_Linear l \<Longrightarrow> length (Linear_row l x) = out_features l"
  by (simp add: Linear_row_def wf_Linear_def)

lemma seq_row_wf_length:
  assumes "wf_PointNetLayer L ic oc"
  shows "length (seq_row (mlp L) x) = oc"
  using wf_PointNetLayerD [OF assms] by (auto simp: length_Linear_row)

section \<open>The element-wise maximum\<close>

lemma length_vmax: "length (vmax a b) = min (length a) (length b)"
  by (simp add: vmax_def)

lemma nth_vmax: "k < length a \<Longrightarrow> k < length b \<Longrightarrow> vmax a b ! k = max (a ! k) (b ! k)"
  by (simp add: vmax_def)

lemma vmax_commute: "vmax a b = vmax b a"
  by (rule nth_equalityI) (simp_all add: length_vmax nth_vmax max.commute)

lemma vmax_left_commute: "vmax a (vmax b s) = vmax b (vmax a s)"
  by (rule nth_equalityI) (simp_all add: length_vmax nth_vmax max.left_commute min.left_commute)

lemma fold_vmax_mset: "mset xs = mset ys \<Longrightarrow> fold vmax xs = fold vmax ys"
  by (rule fold_multiset_equiv) (simp_all add: fun_eq_iff vmax_left_commute)

lemma fold_vmax_head:
  assumes "y \<in> set xs"
  shows "fold vmax xs x = fold vmax (x # remove1 y xs) y"
proof -
  from assms have "mset xs = mset (y # remove1 y xs)" by simp
  then have "fold vmax xs = fold vmax (y # remove1 y xs)"
    by (rule fold_vmax_mset)
  then have "fold vmax xs x = fold vmax (y # remove1 y xs) x"
    by (rule fun_cong)
  also have "\<dots> = fold vmax (x # remove1 y xs) y"
    by (simp add: vmax_commute)
  finally show ?thesis .
qed

lemma amax_mset:
  assumes "mset rs = mset rs'"
  shows "amax c rs = amax c rs'"
proof (cases rs)
  case Nil
  with assms show ?thesis by simp
next
  case (Cons x xs)
  with assms obtain y ys where rs': "rs' = y # ys" by (cases rs') auto
  show ?thesis
  proof (cases "x = y")
    case True
    with assms Cons rs' have "mset xs = mset ys" by simp
    then have "fold vmax xs = fold vmax ys" by (rule fold_vmax_mset)
    with True Cons rs' show ?thesis by (simp add: amax_def)
  next
    case False
    from assms Cons rs' have "y \<in># mset (x # xs)" by simp
    with False have y: "y \<in> set xs" by simp
    from assms Cons rs' have "mset (x # xs) - {#y#} = mset ys" by simp
    with False y have "mset (x # remove1 y xs) = mset ys" by simp
    then have "fold vmax (x # remove1 y xs) = fold vmax ys"
      by (rule fold_vmax_mset)
    then have "fold vmax (x # remove1 y xs) y = fold vmax ys y"
      by (rule fun_cong)
    with fold_vmax_head [OF y] Cons rs' show ?thesis by (simp add: amax_def)
  qed
qed

lemma length_fold_vmax:
  "\<forall>r \<in> set rs. length r = c \<Longrightarrow> length r0 = c \<Longrightarrow> length (fold vmax rs r0) = c"
  by (induction rs arbitrary: r0) (simp_all add: length_vmax)

lemma length_amax: "\<forall>r \<in> set rs. length r = c \<Longrightarrow> length (amax c rs) = c"
  by (cases rs) (simp_all add: amax_def length_fold_vmax)



lemma nonneg_vmax: "nonneg_row b \<Longrightarrow> nonneg_row (vmax a b)"
proof -
  assume b: "nonneg_row b"
  have "0 \<le> vmax a b ! k" if "k < length (vmax a b)" for k
  proof -
    from that have k: "k < length a" "k < length b" by (simp_all add: length_vmax)
    with b have "0 \<le> b ! k" by (simp add: nonneg_row_def)
    with k show ?thesis by (simp add: nth_vmax max.coboundedI2)
  qed
  then show ?thesis by (auto simp: nonneg_row_def in_set_conv_nth)
qed

lemma nonneg_fold_vmax: "nonneg_row r0 \<Longrightarrow> nonneg_row (fold vmax rs r0)"
  by (induction rs arbitrary: r0) (simp_all add: nonneg_vmax)

lemma nonneg_amax: "\<forall>r \<in> set rs. nonneg_row r \<Longrightarrow> nonneg_row (amax c rs)"
  by (cases rs) (simp_all add: amax_def nonneg_fold_vmax, simp add: nonneg_row_def)

lemma nonneg_relu_row: "nonneg_row (relu_row r)"
  by (simp add: nonneg_row_def relu_row_def)


section \<open>The example network\<close>

lemma ex_net_init: "PointNet_init 2 ex_ini ex_ini ex_ini ex_ini ex_ini = Inr ex_net"
  by (simp add: PointNet_init_def PointNetLayer_init_def Linear_init_def ex_ini_def ex_net_def
      ex_linear_def)

lemma dot_unit:
  "dot (map (\<lambda>c. if r = c then 1 else 0) [0..<n]) x = (if r < min n (length x) then x ! r else 0)"
proof -
  let ?m = "min n (length x)"
  have z: "zip (map (\<lambda>c. if r = c then 1 else (0::real)) [0..<n]) x =
      map (\<lambda>k. (if r = k then 1 else 0, x ! k)) [0..<?m]"
    by (rule nth_equalityI) simp_all
  have "dot (map (\<lambda>c. if r = c then 1 else 0) [0..<n]) x =
      (\<Sum>k\<leftarrow>[0..<?m]. (if r = k then 1 else 0) * x ! k)"
    unfolding dot_def z by (simp add: comp_def)
  also have "\<dots> = (\<Sum>k = 0..<?m. if r = k then x ! k else 0)"
    by (simp add: interv_sum_list_conv_sum_set_nat if_distrib [of "\<lambda>a. a * _"] cong: if_cong)
  also have "\<dots> = (if r < ?m then x ! r else 0)"
    by simp
  finally show ?thesis .
qed

lemma Linear_row_ex_linear:
  "Linear_row (ex_linear n m) x = map (\<lambda>r. if r < min n (length x) then x ! r else 0) [0..<m]"
  unfolding Linear_row_def ex_linear_def
  by (rule nth_equalityI) (simp_all add: dot_unit)

lemma wf_ex_linear: "wf_Linear (ex_linear n m)"
  by (simp add: wf_Linear_def ex_linear_def)

lemma ex_linear_sel [simp]:
  "in_features (ex_linear n m) = n" "out_features (ex_linear n m) = m"
  by (simp_all add: ex_linear_def)

lemma upt_32: "[0..<32] = [0,1,2,3,4,5,6,7,8,9,10,11,12,13,14,15,16,17,18,19,20,21,22,23,24,25,26,27,28,29,30,31]"
  by code_simp

section \<open>Well-shaped inputs\<close>

lemma forward_wf:
  assumes "wf_PointNetLayer L ic oc" "ncols h = ic" "ncols pos = 3" "nrows pos = nrows h"
    "valid_edges (nrows h) es"
  shows "PointNetLayer_forward L h pos es =
     Inr (Tensor oc (map (\<lambda>i. amax oc (map (edge_message L h pos) (incoming es i)))
            [0..<nrows h]))"
  using assms seq_cols_wf [OF assms(1)] by (simp add: forward_rows)

lemma wf_forward_rows:
  assumes "wf_PointNetLayer L ic oc"
  shows "wf_tensor (Tensor oc (map (\<lambda>i. amax oc (map (edge_message L h pos) (incoming es i)))
            [0..<n]))"
  using seq_row_wf_length [OF assms]
  by (auto simp: wf_tensor_def edge_message_def intro!: length_amax)

lemma ex_layer_wf: "wf_PointNetLayer ex_layer 1 2"
  by (simp add: wf_PointNetLayer_def ex_layer_def wf_Linear_def)

lemma fold_max_Max: "fold max ks (k::int) = Max (set (k # ks))"
  by (simp only: Max.set_eq_fold)

lemma batch_dim_size:
  assumes "set ids = {0..<int B}"
  shows "(case ids of [] \<Rightarrow> 0 | k # ks \<Rightarrow> nat (fold max ks k + 1)) = B"
proof (cases ids)
  case Nil
  with assms show ?thesis by simp
next
  case (Cons k ks)
  with assms have B: "0 < B" by (cases B) auto
  have "Max (set ids) = int B - 1"
    unfolding assms using B by (intro Max_eqI) auto
  with Cons show ?thesis by (simp add: fold_max_Max)
qed

lemma global_max_pool_Some:
  assumes "length ids = nrows x" "set ids = {0..<int B}"
  shows "global_max_pool x (Some ids) =
     Inr (Tensor (ncols x) (map (\<lambda>b. amax (ncols x) (rows_at ids (rows x) b)) [0..<B]))"
  using assms by (simp add: global_max_pool_def batch_dim_size scatter_max_def)

lemma set_rows_at: "set (rows_at index src i) \<subseteq> set src"
  by (auto simp: rows_at_def dest: set_zip_rightD)

lemma wf_relu: "wf_tensor t \<Longrightarrow> wf_tensor (relu t)"
  by (simp add: wf_tensor_def relu_def relu_row_def)

lemma pooled_wf:
  assumes "wf_PointNet M nc" "ncols pos = 3" "nrows pos = N" "valid_edges N es"
    "length ids = N" "set ids = {0..<int B}"
  shows "\<exists>p. PointNet_pooled M pos es (Some ids) = Inr p \<and> ncols p = 32 \<and> nrows p = B \<and>
    wf_tensor p"
proof -
  from assms(1) have w1: "wf_PointNetLayer (conv1 M) 3 32" and w2: "wf_PointNetLayer (conv2 M) 32 32"
    by (simp_all add: wf_PointNet_def)
  define h1 where "h1 = Tensor 32 (map (\<lambda>i. amax 32 (map (edge_message (conv1 M) pos pos)
      (incoming es i))) [0..<nrows pos])"
  have f1: "PointNetLayer_forward (conv1 M) pos pos es = Inr h1"
    unfolding h1_def using assms(2,3,4) by (intro forward_wf [OF w1]) simp_all
  have n1: "nrows (relu h1) = nrows pos" "ncols (relu h1) = 32"
    by (simp_all add: h1_def relu_def nrows_def)
  define h2 where "h2 = Tensor 32 (map (\<lambda>i. amax 32 (map (edge_message (conv2 M) (relu h1) pos)
      (incoming es i))) [0..<nrows (relu h1)])"
  have f2: "PointNetLayer_forward (conv2 M) (relu h1) pos es = Inr h2"
    unfolding h2_def using assms(2,3,4) n1 by (intro forward_wf [OF w2]) simp_all
  have wf2: "wf_tensor (relu h2)"
    unfolding h2_def by (intro wf_relu wf_forward_rows [OF w2])
  have n2: "nrows (relu h2) = N" "ncols (relu h2) = 32"
    using n1 assms(3) by (simp_all add: h2_def relu_def nrows_def)
  define p where "p = Tensor 32 (map (\<lambda>b. amax 32 (rows_at ids (rows (relu h2)) b)) [0..<B])"
  have "global_max_pool (relu h2) (Some ids) = Inr p"
    using global_max_pool_Some [of ids "relu h2" B] assms(5,6) n2 by (simp add: p_def)
  with f1 f2 have "PointNet_pooled M pos es (Some ids) = Inr p"
    by (simp add: PointNet_pooled_def)
  moreover have "wf_tensor p"
    using wf2 n2 set_rows_at [of ids "rows (relu h2)"]
    by (auto simp: p_def wf_tensor_def intro!: length_amax)
  ultimately show ?thesis by (auto simp: p_def nrows_def)
qed

lemma Linear_forward_wf:
  assumes "wf_Linear l" "ncols x = in_features l"
  shows "\<exists>y. Linear_forward l x = Inr y \<and> ncols y = out_features l \<and> nrows y = nrows x \<and>
    wf_tensor y"
  using assms by (simp add: Linear_forward_def nrows_def wf_tensor_def length_Linear_row)

lemma ex_net_wf: "wf_PointNet ex_net 2"
  by (simp add: wf_PointNet_def wf_PointNetLayer_def ex_net_def wf_ex_linear)

lemma ex_conv1_wf: "wf_PointNetLayer (conv1 ex_net) 3 32"
  using ex_net_wf by (simp add: wf_PointNet_def)

section \<open>Edge lists as multisets\<close>

lemma mset_incoming: "mset (incoming es i) = filter_mset (\<lambda>e. snd e = int i) (mset es)"
  by (simp add: incoming_def)

lemma set_incoming: "set (incoming es i) = {e \<in> set es. snd e = int i}"
  by (simp add: incoming_def)

lemma valid_edges_mset: "mset es = mset es' \<Longrightarrow> valid_edges n es = valid_edges n es'"
  using mset_eq_setD [of es es'] by (simp add: valid_edges_def)

section \<open>Permutations of the points\<close>

lemma index_in_less: "v \<in> set p \<Longrightarrow> index_in p v < length p"
  by (induction p) auto

lemma nth_index_in: "v \<in> set p \<Longrightarrow> p ! index_in p v = v"
  by (induction p) auto

lemma index_in_nth: "distinct p \<Longrightarrow> k < length p \<Longrightarrow> index_in p (p ! k) = k"
proof (induction p arbitrary: k)
  case Nil
  then show ?case by simp
next
  case (Cons x xs)
  then show ?case by (cases k) auto
qed

lemma index_in_eq_iff:
  assumes "distinct p" "v \<in> set p" "k < length p"
  shows "index_in p v = k \<longleftrightarrow> v = p ! k"
proof
  assume "index_in p v = k"
  with nth_index_in [OF assms(2)] show "v = p ! k" by simp
next
  assume "v = p ! k"
  with index_in_nth [OF assms(1,3)] show "index_in p v = k" by simp
qed

lemma perm_upt_facts:
  assumes "mset p = mset [0..<n]"
  shows "distinct p" "set p = {0..<n}" "length p = n"
proof -
  from assms show "distinct p" using mset_eq_imp_distinct_iff [of p "[0..<n]"] by simp
  from assms show "set p = {0..<n}" using mset_eq_setD [of p "[0..<n]"] by simp
  from assms show "length p = n" using mset_eq_length [of p "[0..<n]"] by simp
qed

lemma mset_permute_rows:
  assumes "mset p = mset [0..<length xs]"
  shows "mset (permute_rows p xs) = mset xs"
proof -
  have "mset (permute_rows p xs) = image_mset (\<lambda>k. xs ! k) (mset p)"
    by (simp add: permute_rows_def)
  also have "\<dots> = mset (map (\<lambda>k. xs ! k) [0..<length xs])"
    by (simp only: assms mset_map)
  also have "\<dots> = mset xs"
    by (simp only: map_nth)
  finally show ?thesis .
qed

lemma forward_Inr:
  assumes "PointNetLayer_forward L h pos es = Inr out"
  shows "valid_edges (nrows h) es \<and> nrows pos = nrows h \<and>
    (\<exists>c. seq_cols (mlp L) (ncols h + ncols pos) = Inr c \<and>
       out = Tensor c (map (\<lambda>i. amax c (map (edge_message L h pos) (incoming es i)))
                         [0..<nrows h]))"
  using assms by (auto simp: forward_rows bind_result_eq_Inr split: if_splits)

lemma forward_success:
  assumes "valid_edges (nrows h) es" "nrows pos = nrows h"
    "seq_cols (mlp L) (ncols h + ncols pos) = Inr c"
  shows "PointNetLayer_forward L h pos es =
    Inr (Tensor c (map (\<lambda>i. amax c (map (edge_message L h pos) (incoming es i))) [0..<nrows h]))"
  using assms by (simp add: forward_rows)

lemma valid_edgesD:
  "valid_edges n es \<Longrightarrow> e \<in> set es \<Longrightarrow> 0 \<le> fst e \<and> fst e < int n \<and> 0 \<le> snd e \<and> snd e < int n"
  by (auto simp: valid_edges_def)

lemma valid_relabel:
  assumes "mset p = mset [0..<n]" "valid_edges n es"
  shows "valid_edges n (relabel p es)"
proof -
  note pf = perm_upt_facts [OF assms(1)]
  have "index_in p (nat v) < n" if "0 \<le> v" "v < int n" for v
  proof -
    from that have "nat v \<in> set p" by (simp add: pf(2))
    then show ?thesis using index_in_less [of "nat v" p] by (simp add: pf(3))
  qed
  with assms(2) show ?thesis
    by (auto simp: valid_edges_def relabel_def)
qed

lemma incoming_relabel:
  assumes "mset p = mset [0..<n]" "valid_edges n es" "i' < n"
  shows "incoming (relabel p es) i' =
    map (\<lambda>e. (int (index_in p (nat (fst e))), int (index_in p (nat (snd e)))))
      (incoming es (p ! i'))"
proof -
  note pf = perm_upt_facts [OF assms(1)]
  have "(int (index_in p (nat (snd e))) = int i') = (snd e = int (p ! i'))" if "e \<in> set es" for e
  proof -
    from valid_edgesD [OF assms(2) that] have s: "0 \<le> snd e" "nat (snd e) \<in> set p"
      by (simp_all add: pf(2) nat_less_iff)
    from index_in_eq_iff [OF pf(1) s(2), of i'] assms(3) s(1) show ?thesis
      by (auto simp: pf(3))
  qed
  then show ?thesis
    by (auto simp: incoming_def relabel_def filter_map comp_def intro!: arg_cong [of _ _ "map _"]
        filter_cong)
qed

lemma edge_message_relabel:
  assumes "mset p = mset [0..<n]" "valid_edges n es" "e \<in> set es"
  shows "edge_message L (permute_points p h) (permute_points p pos)
      (int (index_in p (nat (fst e))), int (index_in p (nat (snd e)))) = edge_message L h pos e"
proof -
  note pf = perm_upt_facts [OF assms(1)]
  from valid_edgesD [OF assms(2,3)] have s: "nat (fst e) \<in> set p" "nat (snd e) \<in> set p"
    by (simp_all add: pf(2) nat_less_iff)
  have "permute_rows p xs ! index_in p v = xs ! v" if "v \<in> set p" for v and xs :: "real vec list"
    using that by (simp add: permute_rows_def index_in_less nth_index_in)
  with s show ?thesis
    by (simp add: edge_message_def edge_feat_row_def permute_points_def)
qed

lemma layer_permutation:
  assumes P: "mset p = mset [0..<nrows h]"
    and E: "mset es' = mset (relabel p es)"
    and F: "PointNetLayer_forward L h pos es = Inr out"
  shows "PointNetLayer_forward L (permute_points p h) (permute_points p pos) es' =
    Inr (permute_points p out)"
proof -
  let ?n = "nrows h"
  let ?h' = "permute_points p h" and ?pos' = "permute_points p pos"
  note pf = perm_upt_facts [OF P]
  from forward_Inr [OF F] obtain c where
    v: "valid_edges ?n es" and n: "nrows pos = ?n" and
    c: "seq_cols (mlp L) (ncols h + ncols pos) = Inr c" and
    out: "out = Tensor c (map (\<lambda>i. amax c (map (edge_message L h pos) (incoming es i))) [0..<?n])"
    by blast
  have n': "nrows ?h' = ?n" "nrows ?pos' = ?n" "ncols ?h' = ncols h" "ncols ?pos' = ncols pos"
    by (simp_all add: permute_points_def permute_rows_def nrows_def pf(3))
  have v': "valid_edges ?n es'"
    using valid_relabel [OF P v] valid_edges_mset [OF E] by simp
  have f': "PointNetLayer_forward L ?h' ?pos' es' =
      Inr (Tensor c (map (\<lambda>i. amax c (map (edge_message L ?h' ?pos') (incoming es' i))) [0..<?n]))"
    using forward_success [of ?h' es' ?pos' L c] v' n' c by simp
  have row: "amax c (map (edge_message L ?h' ?pos') (incoming es' i')) =
      amax c (map (edge_message L h pos) (incoming es (p ! i')))" if "i' < ?n" for i'
  proof -
    have "mset (incoming es' i') = mset (incoming (relabel p es) i')"
      by (simp add: mset_incoming E)
    then have "image_mset (edge_message L ?h' ?pos') (mset (incoming es' i')) =
        image_mset (edge_message L ?h' ?pos') (mset (incoming (relabel p es) i'))"
      by (rule arg_cong)
    then have "amax c (map (edge_message L ?h' ?pos') (incoming es' i')) =
        amax c (map (edge_message L ?h' ?pos') (incoming (relabel p es) i'))"
      by (intro amax_mset) simp
    also have "map (edge_message L ?h' ?pos') (incoming (relabel p es) i') =
        map (edge_message L h pos) (incoming es (p ! i'))"
      unfolding incoming_relabel [OF P v that] map_map comp_def
      by (rule map_cong [OF refl], rule edge_message_relabel [OF P v]) (simp add: set_incoming)
    finally show ?thesis .
  qed
  have "map (\<lambda>i. amax c (map (edge_message L ?h' ?pos') (incoming es' i))) [0..<?n] =
      permute_rows p (map (\<lambda>i. amax c (map (edge_message L h pos) (incoming es i))) [0..<?n])"
  proof (rule nth_equalityI)
    show "length (map (\<lambda>i. amax c (map (edge_message L ?h' ?pos') (incoming es' i))) [0..<?n]) =
      length (permute_rows p
        (map (\<lambda>i. amax c (map (edge_message L h pos) (incoming es i))) [0..<?n]))"
      by (simp add: permute_rows_def pf(3))
  next
    fix i'
    assume "i' < length (map (\<lambda>i. amax c (map (edge_message L ?h' ?pos') (incoming es' i)))
      [0..<?n])"
    then have i': "i' < ?n" by simp
    then have "p ! i' \<in> set p" by (simp add: pf(3))
    then have "p ! i' < ?n" by (simp add: pf(2))
    with i' show "map (\<lambda>i. amax c (map (edge_message L ?h' ?pos') (incoming es' i))) [0..<?n] ! i'
      = permute_rows p
          (map (\<lambda>i. amax c (map (edge_message L h pos) (incoming es i))) [0..<?n]) ! i'"
      by (simp add: permute_rows_def pf(3) row)
  qed
  with f' out show ?thesis by (simp add: permute_points_def)
qed

lemma relu_permute:
  assumes "set p \<subseteq> {0..<nrows t}"
  shows "relu (permute_points p t) = permute_points p (relu t)"
proof -
  have "map relu_row (map (\<lambda>k. rows t ! k) p) = map (\<lambda>k. map relu_row (rows t) ! k) p"
    unfolding map_map comp_def using assms by (intro map_cong [OF refl]) (auto simp: nrows_def)
  then show ?thesis by (simp add: relu_def permute_points_def permute_rows_def)
qed

lemma nrows_relu [simp]: "nrows (relu t) = nrows t"
  by (simp add: relu_def nrows_def)

lemma rows_at_permute:
  "rows_at (permute_rows p index) (permute_rows p src) b =
     map (\<lambda>q. src ! q) (filter (\<lambda>q. index ! q = int b) p)"
  by (induction p) (simp_all add: rows_at_def permute_rows_def)

lemma permute_rows_upt: "permute_rows [0..<length xs] xs = xs"
  by (simp add: permute_rows_def map_nth)

lemma rows_at_upt:
  assumes "length index = length src"
  shows "rows_at index src b =
     map (\<lambda>q. src ! q) (filter (\<lambda>q. index ! q = int b) [0..<length src])"
  using rows_at_permute [of "[0..<length src]" index src b] permute_rows_upt [of src]
    permute_rows_upt [of index] assms by simp

lemma mset_rows_at_permute:
  assumes "mset p = mset [0..<length src]" "length index = length src"
  shows "mset (rows_at (permute_rows p index) (permute_rows p src) b) = mset (rows_at index src b)"
proof -
  have "mset (filter (\<lambda>q. index ! q = int b) p) =
      mset (filter (\<lambda>q. index ! q = int b) [0..<length src])"
    by (simp only: mset_filter assms(1))
  then have "image_mset (\<lambda>q. src ! q) (mset (filter (\<lambda>q. index ! q = int b) p)) =
      image_mset (\<lambda>q. src ! q) (mset (filter (\<lambda>q. index ! q = int b) [0..<length src]))"
    by (rule arg_cong)
  then show ?thesis
    by (simp add: rows_at_permute rows_at_upt [OF assms(2)])
qed

lemma dim_size_set:
  assumes "set ids = set ids'"
  shows "(case ids of [] \<Rightarrow> 0 | k # ks \<Rightarrow> nat (fold max ks k + 1)) =
    (case ids' of [] \<Rightarrow> 0 | k # ks \<Rightarrow> nat (fold max ks k + 1))"
proof (cases ids)
  case Nil
  with assms show ?thesis by simp
next
  case c: (Cons k ks)
  with assms obtain k' ks' where c': "ids' = k' # ks'" by (cases ids') auto
  from assms c c' have "Max (set (k # ks)) = Max (set (k' # ks'))" by simp
  with c c' show ?thesis by (simp add: fold_max_Max del: set_simps)
qed

lemma pool_permutation:
  assumes P: "mset p = mset [0..<nrows x]"
    and B: "batch_fits batch (nrows x)"
    and G: "global_max_pool x batch = Inr y"
  shows "global_max_pool (permute_points p x) (map_option (permute_rows p) batch) = Inr y"
proof (cases batch)
  case None
  with G have ne: "rows x \<noteq> []" and y: "y = Tensor (ncols x) [amax (ncols x) (rows x)]"
    by (auto simp: global_max_pool_def split: if_splits)
  from P have m: "mset (permute_rows p (rows x)) = mset (rows x)"
    by (intro mset_permute_rows) (simp add: nrows_def)
  with ne have "permute_rows p (rows x) \<noteq> []" by auto
  moreover from m have "amax (ncols x) (permute_rows p (rows x)) = amax (ncols x) (rows x)"
    by (rule amax_mset)
  ultimately show ?thesis using None y
    by (simp add: global_max_pool_def permute_points_def)
next
  case (Some ids)
  let ?d = "\<lambda>ids :: int list. case ids of [] \<Rightarrow> 0 | k # ks \<Rightarrow> nat (fold max ks k + 1)"
  from B Some have len: "length ids = nrows x"
    by (simp add: batch_fits_def)
  from G Some have rng: "\<not> (\<exists>k \<in> set ids. k < 0 \<or> int (?d ids) \<le> k)"
    and y: "y = Tensor (ncols x) (map (\<lambda>b. amax (ncols x) (rows_at ids (rows x) b)) [0..<?d ids])"
    by (simp_all add: global_max_pool_def scatter_max_fits [OF len] split: if_splits)
  from P len have "mset (permute_rows p ids) = mset ids"
    by (intro mset_permute_rows) simp
  then have st: "set (permute_rows p ids) = set ids"
    by (rule mset_eq_setD)
  then have d: "?d (permute_rows p ids) = ?d ids"
    by (rule dim_size_set)
  have len': "length (permute_rows p ids) = nrows (permute_points p x)"
    by (simp add: permute_rows_def permute_points_def nrows_def)
  have rw: "amax (ncols x) (rows_at (permute_rows p ids) (permute_rows p (rows x)) b) =
      amax (ncols x) (rows_at ids (rows x) b)" for b
    using P len by (intro amax_mset mset_rows_at_permute) (simp_all add: nrows_def)
  have "\<not> (\<exists>k \<in> set (permute_rows p ids). k < 0 \<or> int (?d ids) \<le> k)"
    unfolding st using rng by simp
  then have "scatter_max (permute_points p x) (permute_rows p ids) (?d ids) =
      Inr (Tensor (ncols (permute_points p x))
        (map (\<lambda>i. amax (ncols (permute_points p x))
           (rows_at (permute_rows p ids) (rows (permute_points p x)) i)) [0..<?d ids]))"
    unfolding scatter_max_fits [OF len'] by (rule if_not_P)
  also have "\<dots> = Inr y"
    by (simp add: permute_points_def rw y)
  finally have "scatter_max (permute_points p x) (permute_rows p ids) (?d ids) = Inr y" .
  with Some show ?thesis
    by (simp add: global_max_pool_def d)
qed

lemma ex_layer_rows:
  "seq_row (mlp ex_layer) [a, b, c, d] = [max 0 a, max 0 b]"
  by (simp add: ex_layer_def Linear_row_def dot_def relu_row_def)

lemma ex_out3_eval: "PointNetLayer_forward ex_layer ex_h3 ex_pos3 ex_edges3 = Inr ex_out3"
  by (simp add: forward_rows valid_edges_def nrows_def ex_h3_def ex_pos3_def ex_edges3_def
      incoming_def edge_message_def edge_feat_row_def vsub_def ex_layer_rows amax_def vmax_def
      ex_out3_def)
     (simp add: ex_layer_def)

lemma upt_2: "[0..<2] = [0, 1]"
  by (simp add: upt_rec)

lemma ex_logits3_eval: "PointNet_forward ex_net ex_pos3 ex_edges3 (Some [0, 0, 0]) = Inr ex_logits3"
  by (simp add: PointNet_forward_def PointNet_pooled_def forward_rows valid_edges_def nrows_def
    ex_net_def incoming_def edge_message_def edge_feat_row_def vsub_def Linear_row_ex_linear upt_32
    relu_def relu_row_def amax_def vmax_def global_max_pool_def scatter_max_def rows_at_def
    ex_pos3_def ex_edges3_def ex_logits3_def Linear_forward_def upt_2)

section \<open>Two objects in one batch\<close>







lemma ncols_relu [simp]: "ncols (relu t) = ncols t"
  by (simp add: relu_def)


section \<open>Rounding to single precision\<close>

lemma pow2_pos: "0 < pow2 e"
  by (simp add: pow2_def)

lemma pow2_powr: "pow2 e = 2 powr (of_int e)"
proof (cases "0 \<le> e")
  case True
  then have "2 powr (of_int e) = (2::real) powr (real (nat e))" by simp
  also have "\<dots> = 2 ^ nat e" by (rule powr_realpow) simp
  finally show ?thesis using True by (simp add: pow2_def)
next
  case False
  then have "2 powr (of_int e) = (2::real) powr (- real (nat (- e)))" by simp
  also have "\<dots> = 1 / 2 powr (real (nat (- e)))" by (simp add: powr_minus divide_inverse)
  also have "\<dots> = 1 / 2 ^ nat (- e)" by (simp add: powr_realpow)
  finally show ?thesis using False by (simp add: pow2_def)
qed

lemma pow2_mono: "a \<le> b \<Longrightarrow> pow2 a \<le> pow2 b"
  by (simp add: pow2_powr)

lemma filter_upto_le:
  assumes "a \<le> e" "e \<le> b"
  shows "filter (\<lambda>x. x \<le> e) [a..b] = [a..e]"
proof -
  have "[a..b] = [a..e] @ [e + 1..b]"
    using assms by (rule upto_split2)
  moreover have "filter (\<lambda>x. x \<le> e) [a..e] = [a..e]"
    by (rule filter_True) simp
  moreover have "filter (\<lambda>x. x \<le> e) [e + 1..b] = []"
    by (rule filter_False) simp
  ultimately show ?thesis by simp
qed

lemma filter_rev_upto_le:
  assumes "a \<le> e" "e \<le> b" "\<And>e'. P e' = (e' \<le> e)"
  shows "filter P (rev [a..b]) = e # rev [a..e - 1]"
proof -
  have "P = (\<lambda>x. x \<le> e)"
    by (rule ext) (rule assms(3))
  then have "filter P (rev [a..b]) = rev (filter (\<lambda>x. x \<le> e) [a..b])"
    by (simp add: rev_filter)
  also have "\<dots> = rev [a..e]"
    by (simp only: filter_upto_le [OF assms(1,2)])
  also have "\<dots> = e # rev [a..e - 1]"
    using assms(1) by (simp add: upto_rec2)
  finally show ?thesis .
qed

lemma filter_rev_upto_all:
  assumes "a \<le> b" "\<And>e'. e' \<le> b \<Longrightarrow> P e'"
  shows "filter P (rev [a..b]) = b # rev [a..b - 1]"
proof -
  have "filter P (rev [a..b]) = rev [a..b]"
    by (rule filter_True) (simp add: assms(2))
  also have "\<dots> = b # rev [a..b - 1]"
    using assms(1) by (simp add: upto_rec2)
  finally show ?thesis .
qed

lemma exponent32_eq:
  assumes "pow2 e \<le> \<bar>r\<bar>" "\<bar>r\<bar> < pow2 (e + 1)" "- 126 \<le> e" "e \<le> 127"
  shows "exponent32 r = e"
proof -
  have P: "(pow2 e' \<le> \<bar>r\<bar>) = (e' \<le> e)" for e'
  proof (cases "e' \<le> e")
    case True
    from pow2_mono [OF this] assms(1) show ?thesis using True by simp
  next
    case False
    then have "e + 1 \<le> e'" by simp
    from pow2_mono [OF this] assms(2) show ?thesis using False by simp
  qed
  show ?thesis
    unfolding exponent32_def filter_rev_upto_le [OF assms(3,4) P]
    by (simp only: list.case)
qed

lemma exponent32_top:
  assumes "pow2 127 \<le> \<bar>r\<bar>"
  shows "exponent32 r = 127"
proof -
  have P: "pow2 e' \<le> \<bar>r\<bar>" if "e' \<le> 127" for e'
    using pow2_mono [OF that] assms by simp
  have "filter (\<lambda>e. pow2 e \<le> \<bar>r\<bar>) (rev [- 126..127]) = 127 # rev [- 126..127 - 1]"
    by (rule filter_rev_upto_all) (simp_all add: P)
  then show ?thesis
    unfolding exponent32_def by (simp only: list.case)
qed

lemma round32_0: "round32 0 = Fin 0"
  by (simp add: round32_def round_to_grid_def)

lemma round32_in_binade:
  assumes "pow2 e \<le> \<bar>r\<bar>" "\<bar>r\<bar> < pow2 (e + 1)" "- 126 \<le> e" "e \<le> 127"
  shows "round32 r =
     (let m = of_int (rne (r / pow2 (e - 23))) * pow2 (e - 23)
      in if 2 ^ 128 \<le> \<bar>m\<bar> then (if 0 < r then PInf else NInf) else Fin m)"
proof -
  from assms(1) pow2_pos [of e] have "r \<noteq> 0" by auto
  then show ?thesis
    by (simp add: round32_def round_to_grid_def exponent32_eq [OF assms])
qed

lemma round32_top:
  assumes "pow2 127 \<le> \<bar>r\<bar>"
  shows "round32 r =
     (let m = of_int (rne (r / pow2 104)) * pow2 104
      in if 2 ^ 128 \<le> \<bar>m\<bar> then (if 0 < r then PInf else NInf) else Fin m)"
proof -
  from assms pow2_pos [of 127] have "r \<noteq> 0" by auto
  then show ?thesis
    by (simp add: round32_def round_to_grid_def exponent32_top [OF assms])
qed

lemma round32_1: "round32 1 = Fin 1"
  using round32_in_binade [of 0 1] by (simp add: pow2_def rne_def)




lemma round32_overflow: "round32 (2 ^ 128) = PInf"
  using round32_top [of "2 ^ 128"] by (simp add: pow2_def rne_def Let_def)


section \<open>The layer over a kernel, row by row\<close>

lemma nrows_Tensor_map [simp]: "nrows (Tensor c (map f xs)) = length xs"
  by (simp add: nrows_def)

lemma Sequential_forward_k_rows:
  "Sequential_forward_k K ms x =
     bind_result (seq_cols ms (ncols x))
       (\<lambda>c. Inr (Tensor c (map (seq_row_k K (nrows x) ms) (rows x))))"
proof (induction ms arbitrary: x)
  case Nil
  show ?case by simp
next
  case (Cons m ms)
  show ?case
  proof (cases m)
    case (Linear_module l)
    then show ?thesis using Cons.IH
      by (simp add: Linear_forward_k_def comp_def) (simp add: nrows_def)
  next
    case ReLU_module
    then show ?thesis using Cons.IH by (simp add: relu_def comp_def) (simp add: nrows_def)
  qed
qed

lemma message_k_rows:
  "message_k K L (Tensor ch (map fi es)) (Tensor ch (map (\<lambda>e. rows h ! nat (fst e)) es))
     (Tensor cp (map (\<lambda>e. rows pos ! nat (fst e)) es))
     (Tensor cp (map (\<lambda>e. rows pos ! nat (snd e)) es)) =
   bind_result (seq_cols (mlp L) (ch + cp))
     (\<lambda>c. Inr (Tensor c (map (edge_message_k K (length es) L h pos) es)))"
  by (simp add: message_k_def tensor_sub_same tensor_cat_def nrows_def Sequential_forward_k_rows
      edge_message_k_def [abs_def] edge_feat_row_def [abs_def] map2_same comp_def)

lemma forward_k_rows:
  "PointNetLayer_forward_k K L h pos es =
     (if \<not> valid_edges (nrows h) es then Inl IndexError
      else if nrows pos \<noteq> nrows h then Inl ValueError
      else bind_result (seq_cols (mlp L) (ncols h + ncols pos)) (\<lambda>c.
             Inr (Tensor c
               (map (\<lambda>i. amax c (map (edge_message_k K (length es) L h pos) (incoming es i)))
                    [0..<nrows h]))))"
proof -
  have sc: "scatter_max (Tensor c (map f es)) (map snd es) (nrows h) =
      Inr (Tensor c (map (\<lambda>i. amax c (map f (incoming es i))) [0..<nrows h]))"
    if "valid_edges (nrows h) es" for c and f :: "int \<times> int \<Rightarrow> 'a vec"
    using that by (auto simp: scatter_max_def nrows_def rows_at_map valid_edges_def)
  show ?thesis
  proof (cases "valid_edges (nrows h) es")
    case False
    then show ?thesis
      by (simp add: PointNetLayer_forward_k_def propagate_k_def collect_invalid)
  next
    case v: True
    show ?thesis
    proof (cases "nrows pos = nrows h")
      case False
      with v show ?thesis
        by (simp add: PointNetLayer_forward_k_def propagate_k_def collect_mismatch)
    next
      case True
      with v show ?thesis
        by (cases "seq_cols (mlp L) (ncols h + ncols pos)")
           (simp_all add: PointNetLayer_forward_k_def propagate_k_def collect_valid
             message_k_rows aggregate_def sc)
    qed
  qed
qed



section \<open>Exact arithmetic as a kernel\<close>

lemma Linear_row_exact: "Linear_row_k exact_kernel n l x = Linear_row l x"
  by (simp add: Linear_row_k_def Linear_row_def exact_kernel_def)

lemma Sequential_forward_exact: "Sequential_forward_k exact_kernel ms x = Sequential_forward ms x"
proof (induction ms arbitrary: x)
  case Nil
  show ?case by simp
next
  case (Cons m ms)
  have "module_forward_k exact_kernel m x = module_forward m x"
    by (cases m) (simp_all add: Linear_forward_k_def Linear_forward_def Linear_row_exact)
  with Cons show ?case by (simp add: bind_result_def split: sum.splits)
qed

lemma PointNetLayer_forward_exact:
  "PointNetLayer_forward_k exact_kernel L h pos es = PointNetLayer_forward L h pos es"
  by (simp add: PointNetLayer_forward_k_def PointNetLayer_forward_def propagate_k_def
      propagate_def message_k_def message_def Sequential_forward_exact)

lemma Linear_forward_exact: "Linear_forward_k exact_kernel l = Linear_forward l"
  by (rule ext) (simp add: Linear_forward_k_def Linear_forward_def Linear_row_exact)

lemma PointNet_forward_exact:
  "PointNet_forward_k exact_kernel M pos es batch = PointNet_forward M pos es batch"
  by (simp add: PointNet_forward_k_def PointNet_forward_def PointNet_pooled_k_def
      PointNet_pooled_def PointNetLayer_forward_exact Linear_forward_exact)

section \<open>The order of the single-precision values\<close>

lemma f32_le_iff: "(a \<le> b) = (b = NaN \<or> f32_ge b a)" for a b :: f32
  by (cases a; cases b) (simp_all add: less_eq_f32_def)

lemma f32_nonneg_iff: "(0 \<le> x) = (x = NaN \<or> f32_ge x 0)" for x :: f32
  by (simp add: f32_le_iff)

section \<open>Well-shaped inputs over a kernel\<close>

lemma length_Linear_row_k: "wf_Linear l \<Longrightarrow> length (Linear_row_k K n l x) = out_features l"
  by (simp add: Linear_row_k_def wf_Linear_def)






section \<open>Pooling and added edges over a kernel\<close>

lemma pooled_k_nonneg:
  assumes "PointNet_pooled_k K M pos es batch = Inr p"
  shows "\<forall>r \<in> set (rows p). nonneg_row r"
proof -
  from assms obtain h2 where g: "global_max_pool (relu h2) batch = Inr p"
    by (auto simp: PointNet_pooled_k_def bind_result_eq_Inr)
  have nn: "\<forall>r \<in> set (rows (relu h2)). nonneg_row r"
    by (simp add: relu_def nonneg_relu_row)
  have "nonneg_row r" if "r \<in> set (rows p)" for r
  proof (cases batch)
    case None
    with g that have "r = amax (ncols (relu h2)) (rows (relu h2))"
      by (auto simp: global_max_pool_def split: if_splits)
    with nn show ?thesis by (simp add: nonneg_amax)
  next
    case (Some ids)
    let ?idx = "broadcast_index ids (nrows (relu h2))"
    from Some g that obtain b where "r = amax (ncols (relu h2)) (rows_at ?idx (rows (relu h2)) b)"
      by (auto simp: global_max_pool_def scatter_max_def Let_def split: if_splits)
    moreover have "\<forall>r \<in> set (rows_at ?idx (rows (relu h2)) b). nonneg_row r"
      using nn set_rows_at [of ?idx "rows (relu h2)" b] by blast
    ultimately show ?thesis by (simp add: nonneg_amax)
  qed
  then show ?thesis by simp
qed


section \<open>Two objects in one batch, over a kernel\<close>








section \<open>The example networks in single precision\<close>

lemma foldl_fma_nan:
  "foldl (\<lambda>s (wk, xk). s + wk * xk) NaN zs = NaN"
  by (induction zs) (simp_all add: plus_f32_def split: prod.splits)

lemma foldl_fma_nan_term:
  "(w, x) \<in> set zs \<Longrightarrow> w * x = NaN \<Longrightarrow> foldl (\<lambda>s (wk, xk). s + wk * xk) s zs = NaN"
proof (induction zs arbitrary: s)
  case Nil
  then show ?case by simp
next
  case (Cons z zs)
  show ?case
  proof (cases "z = (w, x)")
    case True
    have "s + NaN = NaN" by (cases s) (simp_all add: plus_f32_def)
    with True Cons.prems(2) show ?thesis by (simp add: foldl_fma_nan)
  next
    case False
    with Cons.prems have "(w, x) \<in> set zs" by simp
    from Cons.IH [OF this Cons.prems(2)] show ?thesis by simp
  qed
qed

lemma kernel_l2r_nan:
  assumes "k < length w" "k < length x" "w ! k * x ! k = NaN"
  shows "kernel_l2r w b x = NaN"
proof -
  from assms(1,2) have "(w ! k, x ! k) \<in> set (zip w x)"
    by (auto simp: in_set_zip)
  from foldl_fma_nan_term [OF this assms(3)] show ?thesis
    by (simp add: kernel_l2r_def plus_f32_def)
qed

lemma fin_rep_simps [simp]:
  "fin_rep (Fin a) = (round32 a = Fin a)" "\<not> fin_rep NaN" "\<not> fin_rep PInf" "\<not> fin_rep NInf"
  by (simp_all add: fin_rep_def)

lemma kernel_l2r_unit:
  assumes "\<forall>v \<in> set x. fin_rep v"
  shows "kernel_l2r (map (\<lambda>c. if r = c then Fin 1 else Fin 0) [0..<n]) (Fin 0) x =
    (if r < min n (length x) then x ! r else Fin 0)"
proof -
  let ?m = "min n (length x)"
  let ?g = "\<lambda>s (wk, xk). s + wk * (xk::f32)"
  let ?h = "\<lambda>k. (if r = k then Fin 1 else Fin 0, x ! k)"
  have z: "zip (map (\<lambda>c. if r = c then Fin 1 else Fin 0) [0..<n]) x = map ?h [0..<?m]"
    by (rule nth_equalityI) simp_all
  have step: "foldl ?g 0 (map ?h [0..<m]) = (if r < m then x ! r else Fin 0)"
    if "m \<le> length x" for m
    using that
  proof (induction m)
    case 0
    show ?case by (simp add: zero_f32_def)
  next
    case (Suc m)
    from Suc.prems have "x ! m \<in> set x" by simp
    with assms have "fin_rep (x ! m)" by blast
    then obtain a where a: "x ! m = Fin a" "round32 a = Fin a"
      by (cases "x ! m") simp_all
    have rr: "fin_rep (x ! r)" if "r < m"
      using that Suc.prems assms by simp
    show ?case
    proof (cases "r < m")
      case True
      from rr [OF True] obtain b where b: "x ! r = Fin b" "round32 b = Fin b"
        by (cases "x ! r") simp_all
      with True a Suc show ?thesis
        by (simp add: plus_f32_def times_f32_def round32_0)
    next
      case False
      with a Suc show ?thesis
        by (auto simp: plus_f32_def times_f32_def round32_0 less_Suc_eq)
    qed
  qed
  have fin: "v + Fin 0 = v" if "fin_rep v" for v
    using that by (cases v) (simp_all add: plus_f32_def)
  have "fin_rep (if r < ?m then x ! r else Fin 0)"
    using assms by (simp add: round32_0)
  with step [of ?m] show ?thesis
    by (simp add: kernel_l2r_def z fin)
qed

lemma Linear_row_ex32:
  assumes "\<forall>v \<in> set x. fin_rep v"
  shows "Linear_row_k (\<lambda>n. kernel_l2r) N (ex32_linear n m) x =
    map (\<lambda>r. if r < min n (length x) then x ! r else Fin 0) [0..<m]"
  unfolding Linear_row_k_def ex32_linear_def
  by (rule nth_equalityI) (simp_all add: kernel_l2r_unit [OF assms])

lemma Linear_row_ex32_nan:
  assumes "k < n" "k < length x" "x ! k = NaN"
  shows "Linear_row_k (\<lambda>n. kernel_l2r) N (ex32_linear n m) x = replicate m NaN"
proof -
  have "kernel_l2r (map (\<lambda>c. if r = c then Fin 1 else Fin 0) [0..<n]) b x = NaN" for r b
    using assms by (intro kernel_l2r_nan [of k]) (simp_all add: times_f32_def)
  then show ?thesis
    unfolding Linear_row_k_def ex32_linear_def
    by (intro nth_equalityI) simp_all
qed

lemma Linear_row_ex32_inf:
  assumes "k < n" "k < length x" "x ! k = PInf \<or> x ! k = NInf" "r < m" "r \<noteq> k"
  shows "Linear_row_k (\<lambda>n. kernel_l2r) N (ex32_linear n m) x ! r = NaN"
proof -
  have "kernel_l2r (map (\<lambda>c. if r = c then Fin 1 else Fin 0) [0..<n]) b x = NaN" for b
    using assms by (intro kernel_l2r_nan [of k]) (auto simp: times_f32_def)
  with assms(4) show ?thesis
    unfolding Linear_row_k_def ex32_linear_def by simp
qed

lemma wf_ex32_linear: "wf_Linear (ex32_linear n m)"
  by (simp add: wf_Linear_def ex32_linear_def)

lemma ex32_linear_sel [simp]:
  "in_features (ex32_linear n m) = n" "out_features (ex32_linear n m) = m"
  by (simp_all add: ex32_linear_def)

lemma length_Linear_row_ex32 [simp]: "length (Linear_row_k K N (ex32_linear n m) x) = m"
  by (simp add: length_Linear_row_k wf_ex32_linear)

lemma ex32_message_nan:
  assumes "k < n" "k < length x" "x ! k = NaN \<or> ((x ! k = PInf \<or> x ! k = NInf) \<and> 0 < k)" "0 < m"
  shows "seq_row_k (\<lambda>n. kernel_l2r) N
      [Linear_module (ex32_linear n m), ReLU_module, Linear_module (ex32_linear m m)] x =
    replicate m NaN"
proof -
  let ?y = "Linear_row_k (\<lambda>n. kernel_l2r) N (ex32_linear n m) x"
  have "?y ! 0 = NaN"
  proof (cases "x ! k = NaN")
    case True
    with assms(1,2,4) show ?thesis by (simp add: Linear_row_ex32_nan [of k])
  next
    case False
    with assms have "x ! k = PInf \<or> x ! k = NInf" "0 \<noteq> k" by auto
    with assms(1,2,4) show ?thesis by (intro Linear_row_ex32_inf [of k]) simp_all
  qed
  with assms(4) have "relu_row ?y ! 0 = NaN"
    by (simp add: relu_row_def max_def less_eq_f32_def)
  with assms(4) have "Linear_row_k (\<lambda>n. kernel_l2r) N (ex32_linear m m) (relu_row ?y) =
      replicate m NaN"
    by (intro Linear_row_ex32_nan [of 0]) (simp_all add: relu_row_def)
  then show ?thesis by simp
qed

lemma round32_m1: "round32 (- 1) = Fin (- 1)"
  using round32_in_binade [of 0 "- 1"] by (simp add: pow2_def rne_def)

lemma round32_2: "round32 2 = Fin 2"
  using round32_in_binade [of 1 2] by (simp add: pow2_def rne_def)

lemma round32_sum_big: "round32 (2 ^ 127 + 2 ^ 127) = PInf"
  using round32_overflow by simp

lemma round32_sum_big_neg: "round32 (- (2 ^ 127) - 2 ^ 127) = NInf"
  using round32_top [of "- (2 ^ 128)"] by (simp add: pow2_def rne_def Let_def)

lemma fin_rep_relu: "fin_rep v \<Longrightarrow> fin_rep (max 0 v)"
  by (cases v) (simp_all add: max_def zero_f32_def round32_0)

lemma ex32_message_fin:
  assumes "\<forall>v \<in> set x. fin_rep v"
  shows "seq_row_k (\<lambda>n. kernel_l2r) N
      [Linear_module (ex32_linear n m), ReLU_module, Linear_module (ex32_linear m m)] x =
    relu_row (map (\<lambda>r. if r < min n (length x) then x ! r else Fin 0) [0..<m])"
proof -
  let ?y = "map (\<lambda>r. if r < min n (length x) then x ! r else Fin 0) [0..<m]"
  have "\<forall>v \<in> set ?y. fin_rep v"
    using assms by (auto simp: round32_0)
  then have r: "\<forall>v \<in> set (relu_row ?y). fin_rep v"
    by (auto simp: relu_row_def fin_rep_relu)
  have "seq_row_k (\<lambda>n. kernel_l2r) N
      [Linear_module (ex32_linear n m), ReLU_module, Linear_module (ex32_linear m m)] x =
      Linear_row_k (\<lambda>n. kernel_l2r) N (ex32_linear m m)
        (relu_row (Linear_row_k (\<lambda>n. kernel_l2r) N (ex32_linear n m) x))"
    by simp
  also have "\<dots> = Linear_row_k (\<lambda>n. kernel_l2r) N (ex32_linear m m) (relu_row ?y)"
    by (simp only: Linear_row_ex32 [OF assms])
  also have "\<dots> =
      map (\<lambda>r. if r < min m (length (relu_row ?y)) then relu_row ?y ! r else Fin 0) [0..<m]"
    by (rule Linear_row_ex32 [OF r])
  also have "\<dots> = relu_row ?y"
    by (rule nth_equalityI) (simp_all add: relu_row_def)
  finally show ?thesis .
qed

lemma big_pooled_eval:
  "PointNet_pooled_k (\<lambda>n. kernel_l2r) ex32_net big_pos [(0, 1), (1, 0)] (Some [0, 0]) =
     Inr (Tensor 32 [replicate 32 NaN])"
  using round32_sum_big round32_sum_big_neg
  by (simp add: PointNet_pooled_k_def forward_k_rows valid_edges_def nrows_def ex32_net_def
    incoming_def edge_message_k_def edge_feat_row_def vsub_def minus_f32_def round32_0 upt_2
    relu_def relu_row_def amax_def vmax_def global_max_pool_def scatter_max_def rows_at_def
    big_pos_def ex32_message_nan [where k = 3] ex32_message_nan [where k = 0]
    max_def less_eq_f32_def zero_f32_def nth_append
    del: seq_row_k.simps)


lemma ex32_pooled_eval:
  "PointNet_pooled_k (\<lambda>n. kernel_l2r) ex32_net ex32_pos [(0, 1), (1, 0)] (Some [0, 0]) =
     Inr ex32_pooled"
  by (simp add: PointNet_pooled_k_def forward_k_rows valid_edges_def nrows_def ex32_net_def
    incoming_def edge_message_k_def edge_feat_row_def vsub_def minus_f32_def round32_0 round32_1
    round32_m1 upt_2 upt_32 ex32_message_fin
    relu_def relu_row_def amax_def vmax_def global_max_pool_def scatter_max_def rows_at_def
    ex32_pos_def ex32_pooled_def max_def less_eq_f32_def zero_f32_def nth_append
    del: seq_row_k.simps)

lemma is_fin_simps [simp]: "is_fin (Fin a)" "\<not> is_fin NaN" "\<not> is_fin PInf" "\<not> is_fin NInf"
  by (simp_all add: is_fin_def)













lemma const_linear_sel [simp]:
  "in_features (const_linear n m) = n" "out_features (const_linear n m) = m"
  by (simp_all add: const_linear_def)

lemma tie_net_sel [simp]:
  "classifier tie_net = tie_linear" "in_features tie_linear = 32" "out_features tie_linear = 2"
  by (simp_all add: tie_net_def tie_linear_def)















section \<open>The message of an edge\<close>

text \<open>
  C1. For a layer built by \<open>PointNetLayer(in_channels, out_channels)\<close> and the tensors
  that \<open>propagate\<close> gathers for the edge list, \<open>message\<close> returns one row per edge
  \<open>(j, i)\<close>: the concatenation of \<open>h[j]\<close> with \<open>pos[j] - pos[i]\<close>, of length
  \<open>in_channels + 3\<close>, passed through \<open>Linear(in_channels + 3, out_channels)\<close>, the
  rectified linear unit and \<open>Linear(out_channels, out_channels)\<close>.
\<close>

theorem message_is_mlp_of_edge_feature:
  assumes "PointNetLayer_init ic oc ini1 ini2 = Inr L"
    and "collect es h pos = Inr (h_i, h_j, pos_j, pos_i)"
    and "0 \<le> ic" "ncols h = nat ic" "ncols pos = 3" "wf_tensor h" "wf_tensor pos"
  shows "\<exists>l1 l2. Linear_init (ic + 3) oc ini1 = Inr l1 \<and> Linear_init oc oc ini2 = Inr l2 \<and>
      in_features l1 = nat ic + 3 \<and> out_features l1 = nat oc \<and>
      in_features l2 = nat oc \<and> out_features l2 = nat oc \<and>
      mlp L = [Linear_module l1, ReLU_module, Linear_module l2] \<and>
      message L h_i h_j pos_j pos_i =
        Inr (Tensor (nat oc)
          (map (\<lambda>e. Linear_row l2 (relu_row (Linear_row l1 (edge_feat_row h pos e)))) es)) \<and>
      (\<forall>e \<in> set es. length (edge_feat_row h pos e) = nat ic + 3)"
proof -
  from PointNetLayer_init_Inr [OF assms(1)] obtain l1 l2 where
    l1: "Linear_init (ic + 3) oc ini1 = Inr l1" and l2: "Linear_init oc oc ini2 = Inr l2" and
    m: "mlp L = [Linear_module l1, ReLU_module, Linear_module l2]" by blast
  from Linear_init_Inr [OF l1] assms(3) have d1: "in_features l1 = nat ic + 3" "out_features l1 = nat oc"
    by (simp_all add: nat_add_distrib)
  from Linear_init_Inr [OF l2] have d2: "in_features l2 = nat oc" "out_features l2 = nat oc"
    by simp_all
  from collect_Inr [OF assms(2)] have v: "valid_edges (nrows h) es" and n: "nrows pos = nrows h"
    by simp_all
  from collect_valid [OF v n] assms(2) have
    g: "h_i = Tensor (ncols h) (map (\<lambda>e. rows h ! nat (snd e)) es)"
       "h_j = Tensor (ncols h) (map (\<lambda>e. rows h ! nat (fst e)) es)"
       "pos_j = Tensor (ncols pos) (map (\<lambda>e. rows pos ! nat (fst e)) es)"
       "pos_i = Tensor (ncols pos) (map (\<lambda>e. rows pos ! nat (snd e)) es)"
    by simp_all
  have msg: "message L h_i h_j pos_j pos_i =
        Inr (Tensor (nat oc)
          (map (\<lambda>e. Linear_row l2 (relu_row (Linear_row l1 (edge_feat_row h pos e)))) es))"
    unfolding g message_rows
    by (simp add: m d1 d2 assms(4,5) edge_message_def [abs_def])
  have len: "length (edge_feat_row h pos e) = nat ic + 3" if "e \<in> set es" for e
  proof -
    from that v have b: "nat (fst e) < nrows h" "nat (snd e) < nrows h"
      by (auto simp: valid_edges_def)
    with n have "length (rows h ! nat (fst e)) = nat ic"
      "length (rows pos ! nat (fst e)) = 3" "length (rows pos ! nat (snd e)) = 3"
      using assms(4-7) by (simp_all add: wf_tensor_def nrows_def)
    then show ?thesis by (simp add: edge_feat_row_def vsub_def)
  qed
  from l1 l2 d1 d2 m msg len show ?thesis by blast
qed

theorem message_is_mlp_of_edge_feature_witness:
  "PointNetLayer_init 1 2 ex_ini ex_ini = Inr ex_layer \<and>
   collect ex_edges ex_h ex_pos =
     Inr (Tensor 1 [[2], [1]], Tensor 1 [[1], [2]],
          Tensor 3 [[0, 0, 0], [1, 0, 0]], Tensor 3 [[1, 0, 0], [0, 0, 0]]) \<and>
   (0::int) \<le> 1 \<and> ncols ex_h = nat 1 \<and> ncols ex_pos = 3 \<and> wf_tensor ex_h \<and> wf_tensor ex_pos \<and>
   (\<exists>l1 l2. Linear_init (1 + 3) 2 ex_ini = Inr l1 \<and> Linear_init 2 2 ex_ini = Inr l2 \<and>
      in_features l1 = nat 1 + 3 \<and> out_features l1 = nat 2 \<and>
      in_features l2 = nat 2 \<and> out_features l2 = nat 2 \<and>
      mlp ex_layer = [Linear_module l1, ReLU_module, Linear_module l2] \<and>
      message ex_layer (Tensor 1 [[2], [1]]) (Tensor 1 [[1], [2]])
          (Tensor 3 [[0, 0, 0], [1, 0, 0]]) (Tensor 3 [[1, 0, 0], [0, 0, 0]]) =
        Inr (Tensor (nat 2)
          (map (\<lambda>e. Linear_row l2 (relu_row (Linear_row l1 (edge_feat_row ex_h ex_pos e))))
             ex_edges)) \<and>
      (\<forall>e \<in> set ex_edges. length (edge_feat_row ex_h ex_pos e) = nat 1 + 3))"
proof -
  have a: "PointNetLayer_init 1 2 ex_ini ex_ini = Inr ex_layer"
    by (rule ex_layer_init)
  have b: "collect ex_edges ex_h ex_pos =
     Inr (Tensor 1 [[2], [1]], Tensor 1 [[1], [2]],
          Tensor 3 [[0, 0, 0], [1, 0, 0]], Tensor 3 [[1, 0, 0], [0, 0, 0]])"
    by (simp add: collect_def index_select_def ex_edges_def ex_h_def ex_pos_def nrows_def)
  have c: "(0::int) \<le> 1" "ncols ex_h = nat 1" "ncols ex_pos = 3" "wf_tensor ex_h" "wf_tensor ex_pos"
    by (simp_all add: ex_h_def ex_pos_def wf_tensor_def)
  from message_is_mlp_of_edge_feature [OF a b c] a b c show ?thesis
    by (intro conjI)
qed

section \<open>Permutation invariance\<close>

text \<open>
  C2. Let \<open>p\<close> be a permutation of the point indices: the point at position \<open>k\<close> of the
  permuted cloud is the point \<open>p ! k\<close> of the original one. Let \<open>es'\<close> be the edge list
  with its endpoints relabelled accordingly and listed in any order. Then
  \<open>PointNetLayer.forward\<close> on the permuted input returns the rows of the original output,
  permuted in the same way: the row of every point is unchanged. And with a batch vector
  that has one entry per point, permuted along, \<open>PointNet.forward\<close> returns the same
  logits; for a permutation that keeps every point inside its object the permuted batch
  vector is the batch vector itself.
\<close>

theorem permutation_invariance:
  assumes "mset p = mset [0..<nrows pos]" "nrows h = nrows pos"
    and "mset es' = mset (relabel p es)" "batch_fits batch (nrows pos)"
  shows "(PointNetLayer_forward L h pos es = Inr out \<longrightarrow>
            PointNetLayer_forward L (permute_points p h) (permute_points p pos) es' =
              Inr (permute_points p out)) \<and>
         (PointNet_forward M pos es batch = Inr logits \<longrightarrow>
            PointNet_forward M (permute_points p pos) es' (map_option (permute_rows p) batch) =
              Inr logits)"
proof (intro conjI impI)
  assume "PointNetLayer_forward L h pos es = Inr out"
  with assms show "PointNetLayer_forward L (permute_points p h) (permute_points p pos) es' =
      Inr (permute_points p out)"
    by (intro layer_permutation) simp_all
next
  assume "PointNet_forward M pos es batch = Inr logits"
  then obtain h1 h2 pl where
    f1: "PointNetLayer_forward (conv1 M) pos pos es = Inr h1" and
    f2: "PointNetLayer_forward (conv2 M) (relu h1) pos es = Inr h2" and
    g: "global_max_pool (relu h2) batch = Inr pl" and
    l: "Linear_forward (classifier M) pl = Inr logits"
    by (auto simp: PointNet_forward_def PointNet_pooled_def bind_result_eq_Inr)
  note pf = perm_upt_facts [OF assms(1)]
  from forward_Inr [OF f1] have n1: "nrows h1 = nrows pos" by (auto simp: nrows_def)
  from forward_Inr [OF f2] have n2: "nrows h2 = nrows pos" by (auto simp: nrows_def n1)
  have f1': "PointNetLayer_forward (conv1 M) (permute_points p pos) (permute_points p pos) es' =
      Inr (permute_points p h1)"
    using assms(1,3) f1 by (rule layer_permutation)
  have r1: "relu (permute_points p h1) = permute_points p (relu h1)"
    by (rule relu_permute) (simp add: pf(2) n1)
  have f2': "PointNetLayer_forward (conv2 M) (permute_points p (relu h1)) (permute_points p pos) es'
      = Inr (permute_points p h2)"
    using assms(1,3) f2 by (intro layer_permutation) (simp_all add: n1)
  have r2: "relu (permute_points p h2) = permute_points p (relu h2)"
    by (rule relu_permute) (simp add: pf(2) n2)
  have g': "global_max_pool (permute_points p (relu h2)) (map_option (permute_rows p) batch) =
      Inr pl"
    using assms(1,4) g by (intro pool_permutation) (simp_all add: n2)
  from f1' f2' g' l show "PointNet_forward M (permute_points p pos) es'
      (map_option (permute_rows p) batch) = Inr logits"
    by (simp add: PointNet_forward_def PointNet_pooled_def r1 r2)
qed

theorem permutation_invariance_witness:
  "mset ex_perm3 = mset [0..<nrows ex_pos3] \<and> nrows ex_h3 = nrows ex_pos3 \<and>
   mset ex_edges3' = mset (relabel ex_perm3 ex_edges3) \<and>
   batch_fits (Some [0, 0, 0]) (nrows ex_pos3) \<and>
   PointNetLayer_forward ex_layer ex_h3 ex_pos3 ex_edges3 = Inr ex_out3 \<and>
   PointNetLayer_forward ex_layer (permute_points ex_perm3 ex_h3) (permute_points ex_perm3 ex_pos3)
       ex_edges3' = Inr (permute_points ex_perm3 ex_out3) \<and>
   PointNet_forward ex_net ex_pos3 ex_edges3 (Some [0, 0, 0]) = Inr ex_logits3 \<and>
   PointNet_forward ex_net (permute_points ex_perm3 ex_pos3) ex_edges3'
       (map_option (permute_rows ex_perm3) (Some [0, 0, 0])) = Inr ex_logits3"
proof -
  have a: "mset ex_perm3 = mset [0..<nrows ex_pos3]"
    by (simp add: ex_perm3_def ex_pos3_def nrows_def upt_rec)
  have b: "nrows ex_h3 = nrows ex_pos3"
    by (simp add: ex_h3_def ex_pos3_def nrows_def)
  have c: "mset ex_edges3' = mset (relabel ex_perm3 ex_edges3)"
    by (simp add: ex_edges3'_def ex_edges3_def relabel_def ex_perm3_def)
  have d: "batch_fits (Some [0, 0, 0]) (nrows ex_pos3)"
    by (simp add: batch_fits_def ex_pos3_def nrows_def)
  from permutation_invariance [OF a b c d, of ex_layer ex_out3 ex_net ex_logits3]
    ex_out3_eval ex_logits3_eval a b c d
  show ?thesis by (intro conjI) simp_all
qed

section \<open>Output shapes\<close>

text \<open>
  C3. A layer of the shape \<open>PointNetLayer(3, 32)\<close> maps \<open>h\<close> of shape \<open>[N, 3]\<close>,
  \<open>pos\<close> of shape \<open>[N, 3]\<close> and an edge list with all indices in \<open>[0, N)\<close> to a tensor
  of shape \<open>[N, 32]\<close>; and \<open>PointNet.forward\<close> maps a batch of \<open>B\<close> objects (a batch
  vector of length \<open>N\<close> whose values are exactly \<open>0, ..., B - 1\<close>) to logits of shape
  \<open>[B, num_classes]\<close>.
\<close>

theorem forward_output_shapes:
  assumes "wf_PointNetLayer L 3 32" "wf_PointNet M num_classes"
    and "ncols h = 3" "nrows h = N" "ncols pos = 3" "nrows pos = N" "valid_edges N es"
    and "length ids = N" "set ids = {0..<int B}"
  shows "(\<exists>out. PointNetLayer_forward L h pos es = Inr out \<and>
            ncols out = 32 \<and> nrows out = N \<and> wf_tensor out) \<and>
         (\<exists>logits. PointNet_forward M pos es (Some ids) = Inr logits \<and>
            ncols logits = num_classes \<and> nrows logits = B \<and> wf_tensor logits)"
proof
  have "PointNetLayer_forward L h pos es =
     Inr (Tensor 32 (map (\<lambda>i. amax 32 (map (edge_message L h pos) (incoming es i)))
            [0..<nrows h]))"
    using assms by (intro forward_wf) simp_all
  with wf_forward_rows [OF assms(1), of h pos es "nrows h"] assms(4)
  show "\<exists>out. PointNetLayer_forward L h pos es = Inr out \<and>
            ncols out = 32 \<and> nrows out = N \<and> wf_tensor out"
    by (simp add: nrows_def)
next
  from pooled_wf [OF assms(2,5,6,7,8,9)] obtain p where
    p: "PointNet_pooled M pos es (Some ids) = Inr p" "ncols p = 32" "nrows p = B" by blast
  from assms(2) have "wf_Linear (classifier M)" "in_features (classifier M) = 32"
    "out_features (classifier M) = num_classes"
    by (simp_all add: wf_PointNet_def)
  with Linear_forward_wf [of "classifier M" p] p
  show "\<exists>logits. PointNet_forward M pos es (Some ids) = Inr logits \<and>
            ncols logits = num_classes \<and> nrows logits = B \<and> wf_tensor logits"
    by (auto simp: PointNet_forward_def)
qed

theorem forward_output_shapes_witness:
  "wf_PointNetLayer (conv1 ex_net) 3 32 \<and> wf_PointNet ex_net 2 \<and>
   ncols ex_pos10 = 3 \<and> nrows ex_pos10 = 10 \<and> ncols ex_pos10 = 3 \<and> nrows ex_pos10 = 10 \<and>
   valid_edges 10 ex_edges10 \<and> length ex_batch10 = 10 \<and> set ex_batch10 = {0..<int 4} \<and>
   (\<exists>out. PointNetLayer_forward (conv1 ex_net) ex_pos10 ex_pos10 ex_edges10 = Inr out \<and>
            ncols out = 32 \<and> nrows out = 10 \<and> wf_tensor out) \<and>
   (\<exists>logits. PointNet_forward ex_net ex_pos10 ex_edges10 (Some ex_batch10) = Inr logits \<and>
            ncols logits = 2 \<and> nrows logits = 4 \<and> wf_tensor logits)"
proof -
  have a: "wf_PointNetLayer (conv1 ex_net) 3 32" "wf_PointNet ex_net 2"
    by (rule ex_conv1_wf, rule ex_net_wf)
  have b: "ncols ex_pos10 = 3" "nrows ex_pos10 = 10" "ncols ex_pos10 = 3" "nrows ex_pos10 = 10"
    by (simp_all add: ex_pos10_def nrows_def)
  have c: "valid_edges 10 ex_edges10" "length ex_batch10 = 10"
    by (simp_all add: valid_edges_def ex_edges10_def ex_batch10_def)
  have d: "set ex_batch10 = {0..<int 4}"
    by (auto simp: ex_batch10_def)
  from forward_output_shapes [OF a b c d] a b c d show ?thesis by (intro conjI) simp_all
qed

section \<open>Rejection of edges that are out of range\<close>

text \<open>
  C4. On an input of \<open>N\<close> points, an edge with a source or a target outside \<open>[0, N)\<close>
  (the index \<open>N\<close> itself, or a negative one) makes the gathering step fail with
  IndexError, so that \<open>message\<close> and the aggregation are never reached, and
  \<open>PointNetLayer.forward\<close> returns that error and no result, whatever the layer and the
  positions are.
\<close>

theorem out_of_range_edge_rejected:
  assumes "nrows h = N"
    and "(j, i) \<in> set es"
    and "j < 0 \<or> int N \<le> j \<or> i < 0 \<or> int N \<le> i"
  shows "collect es h pos = Inl IndexError \<and> PointNetLayer_forward L h pos es = Inl IndexError"
proof -
  from assms have "\<not> valid_edges (nrows h) es"
    unfolding valid_edges_def by (intro notI) (drule bspec [where x = "(j, i)"], auto)
  then show ?thesis
    by (simp add: collect_invalid forward_rows)
qed

theorem out_of_range_edge_rejected_witness:
  "nrows ex_h = 2 \<and> (0, 2) \<in> set [(0, 1), (0, 2 :: int)] \<and>
   ((0::int) < 0 \<or> int 2 \<le> 0 \<or> (2::int) < 0 \<or> int 2 \<le> 2) \<and>
   collect [(0, 1), (0, 2)] ex_h ex_pos = Inl IndexError \<and>
   PointNetLayer_forward ex_layer ex_h ex_pos [(0, 1), (0, 2)] = Inl IndexError"
proof -
  have a: "nrows ex_h = 2" by (simp add: nrows_def ex_h_def)
  have b: "(0, 2) \<in> set [(0, 1), (0, 2 :: int)]" by simp
  have c: "(0::int) < 0 \<or> int 2 \<le> 0 \<or> (2::int) < 0 \<or> int 2 \<le> 2" by simp
  from out_of_range_edge_rejected [OF a b c] a b c show ?thesis by (intro conjI) simp_all
qed

section \<open>Construction\<close>

text \<open>
  C5. Neither constructor checks its arguments: \<open>PointNetLayer(0, 32)\<close>,
  \<open>PointNetLayer(3, 0)\<close> and a classifier with zero classes are built without an error.
  Construction fails exactly when \<open>Linear\<close> is asked for a negative dimension, that is
  when \<open>in_channels + 3 < 0\<close> or \<open>out_channels < 0\<close>, and for \<open>PointNet\<close> when the
  class count is negative.
\<close>

theorem nonpositive_channels_accepted_counterexample:
  "\<not> isl (PointNetLayer_init 0 32 ex_ini ex_ini) \<and> \<not> isl (PointNetLayer_init 3 0 ex_ini ex_ini) \<and>
   \<not> isl (PointNet_init 0 ex_ini ex_ini ex_ini ex_ini ex_ini)"
  by (simp add: PointNetLayer_init_def PointNet_init_def Linear_init_def)

text \<open>
  C5, as the code has it: construction raises exactly on a negative \<open>Linear\<close> dimension.
\<close>

theorem construction_fails_only_on_negative_dimension:
  "(isl (PointNetLayer_init in_channels out_channels ini1 ini2)
      \<longleftrightarrow> in_channels + 3 < 0 \<or> out_channels < 0) \<and>
   (isl (PointNet_init num_classes ini1 ini2 ini3 ini4 ini5) \<longleftrightarrow> num_classes < 0)"
  by (auto simp: PointNetLayer_init_def PointNet_init_def Linear_init_def)

section \<open>Batch independence\<close>




section \<open>Points without incoming edges\<close>

text \<open>
  C8. On a well-shaped input, a point \<open>i\<close> that is the target of no edge
  (\<open>incoming es i = []\<close>) does not make \<open>PointNetLayer.forward\<close> fail: the call
  returns, and the output row of that point is the zero vector of length \<open>out_channels\<close>
  (the zeros the aggregation result is allocated with).
\<close>

theorem isolated_point_gets_zero_row:
  assumes "wf_PointNetLayer L ic oc" "ncols h = ic" "ncols pos = 3"
    and "nrows h = N" "nrows pos = N" "valid_edges N es"
    and "i < N" "incoming es i = []"
  shows "\<exists>out. PointNetLayer_forward L h pos es = Inr out \<and> rows out ! i = replicate oc 0"
  using forward_wf [OF assms(1,2,3), of es] assms(4-8) by (simp add: amax_def)

theorem isolated_point_gets_zero_row_witness:
  "wf_PointNetLayer ex_layer 1 2 \<and> ncols ex_h = 1 \<and> ncols ex_pos = 3 \<and>
   nrows ex_h = 2 \<and> nrows ex_pos = 2 \<and> valid_edges 2 [(0, 1)] \<and>
   (0::nat) < 2 \<and> incoming [(0, 1)] 0 = [] \<and>
   (\<exists>out. PointNetLayer_forward ex_layer ex_h ex_pos [(0, 1)] = Inr out \<and>
      rows out ! 0 = replicate 2 0)"
proof -
  have a: "wf_PointNetLayer ex_layer 1 2" by (rule ex_layer_wf)
  have b: "ncols ex_h = 1" "ncols ex_pos = 3" "nrows ex_h = 2" "nrows ex_pos = 2"
    "valid_edges 2 [(0, 1)]" "(0::nat) < 2" "incoming [(0, 1)] 0 = []"
    by (simp_all add: ex_h_def ex_pos_def nrows_def valid_edges_def incoming_def)
  from isolated_point_gets_zero_row [OF a b] a b show ?thesis by (intro conjI)
qed

section \<open>Monotonicity in the edge set\<close>




section \<open>Sign of the pooled features\<close>

text \<open>
  C10. In single precision a pooled entry can be NaN, and \<open>NaN >= 0\<close> is false. For the
  two points at \<open>2^127\<close> and \<open>-2^127\<close>, joined by an edge in each direction, every
  message of the first layer is NaN (\<open>pos_j - pos_i\<close> is infinite and meets a zero
  weight); \<open>relu\<close> and the maxima keep NaN, so that the pooled feature of the one object
  is NaN in all its 32 entries.
\<close>

theorem pooled_nan_counterexample:
  "PointNet_pooled_k (\<lambda>n. kernel_l2r) ex32_net big_pos [(0, 1), (1, 0)] (Some [0, 0]) =
     Inr nan_pooled \<and>
   \<not> f32_ge (rows nan_pooled ! 0 ! 0) 0"
  using big_pooled_eval by (simp add: nan_pooled_def)

text \<open>
  C10, as the code has it. Whenever \<open>PointNet.forward\<close> reaches the classifier, every
  entry of the pooled tensor it passes to the classifier is NaN or at least zero, whatever
  the kernel computes: the rows that are pooled come out of a rectified linear unit,
  and a row that no point contributes to is zero.
\<close>

theorem pooled_features_nonnegative_or_nan:
  fixes K :: "f32 kernel"
  assumes "PointNet_pooled_k K M pos es batch = Inr p"
  shows "list_all (list_all (\<lambda>x. x = NaN \<or> f32_ge x 0)) (rows p)"
  using pooled_k_nonneg [OF assms] by (simp add: list_all_iff nonneg_row_def f32_nonneg_iff)

theorem pooled_features_nonnegative_or_nan_witness:
  "PointNet_pooled_k (\<lambda>n. kernel_l2r) ex32_net ex32_pos [(0, 1), (1, 0)] (Some [0, 0]) =
     Inr ex32_pooled \<and>
   list_all (list_all (\<lambda>x. x = NaN \<or> f32_ge x 0)) (rows ex32_pooled)"
  using pooled_features_nonnegative_or_nan [OF ex32_pooled_eval] ex32_pooled_eval
  by simp

end
